theory Spec2Isabelle
  imports Main
begin

section \<open>The Python run time, as far as initd.py uses it\<close>

text \<open>
  The theory embeds \<^verbatim>\<open>src/initd.py\<close>: the class \<^verbatim>\<open>Initd\<close> with its verbs
  \<^verbatim>\<open>start\<close>, \<^verbatim>\<open>stop\<close>, \<^verbatim>\<open>restart\<close> and \<^verbatim>\<open>status\<close>, the module function
  \<^verbatim>\<open>become_daemon\<close> and the two signal handlers that \<^verbatim>\<open>start\<close> installs.
  Every method becomes a function from the state of the process and of the system
  around it to a result and the new state. Python 3 is the language modelled:
  \<^verbatim>\<open>IOError\<close> is \<^verbatim>\<open>OSError\<close>, and \<^verbatim>\<open>SystemExit\<close>, \<^verbatim>\<open>KeyboardInterrupt\<close> and
  \<^verbatim>\<open>GeneratorExit\<close> stand beside \<^verbatim>\<open>Exception\<close>, not below it.
\<close>

datatype errno = EPERM | ENOENT | ESRCH | EAGAIN | EACCES | ENOTDIR | EISDIR

fun errno_code :: "errno \<Rightarrow> int" where
  "errno_code EPERM = 1"
| "errno_code ENOENT = 2"
| "errno_code ESRCH = 3"
| "errno_code EAGAIN = 11"
| "errno_code EACCES = 13"
| "errno_code ENOTDIR = 20"
| "errno_code EISDIR = 21"

fun strerror :: "errno \<Rightarrow> string" where
  "strerror EPERM = ''Operation not permitted''"
| "strerror ENOENT = ''No such file or directory''"
| "strerror ESRCH = ''No such process''"
| "strerror EAGAIN = ''Resource temporarily unavailable''"
| "strerror EACCES = ''Permission denied''"
| "strerror ENOTDIR = ''Not a directory''"
| "strerror EISDIR = ''Is a directory''"

text \<open>
  The exceptions that reach the code: \<open>ValueError\<close> from \<^verbatim>\<open>int()\<close>, \<open>OverflowError\<close>
  from \<^verbatim>\<open>os.kill\<close> on a pid outside the C type, \<open>OSError\<close> from the system calls,
  and whatever the two callbacks raise. \<open>AppError\<close> stands for any class below
  \<^verbatim>\<open>Exception\<close> that a callback raises.
\<close>

datatype py_exc =
    ValueError
  | OverflowError
  | OSError errno
  | AppError string
  | SystemExit int
  | KeyboardInterrupt
  | GeneratorExit

text \<open>\<^verbatim>\<open>isinstance(e, Exception)\<close>: what \<^verbatim>\<open>except Exception\<close> catches.\<close>

fun is_Exception :: "py_exc \<Rightarrow> bool" where
  "is_Exception (SystemExit n) = False"
| "is_Exception KeyboardInterrupt = False"
| "is_Exception GeneratorExit = False"
| "is_Exception ValueError = True"
| "is_Exception OverflowError = True"
| "is_Exception (OSError e) = True"
| "is_Exception (AppError m) = True"

datatype signum = SIGTERM | SIGALRM

text \<open>
  How a piece of code stops when it does not return: an exception travels up, the
  process leaves through \<^verbatim>\<open>os._exit\<close> (no \<^verbatim>\<open>finally\<close> block runs), a signal with
  its default action ends it, or it is still running when the scenario ends
  (\<open>Pending\<close>: it has not returned).
\<close>

datatype abort = Raised py_exc | OsExit int | Killed signum | Pending

type_synonym 'a result = "abort + 'a"

abbreviation Ret :: "'a \<Rightarrow> 'a result" where
  "Ret x \<equiv> Inr x"

abbreviation Raise :: "py_exc \<Rightarrow> 'a result" where
  "Raise e \<equiv> Inl (Raised e)"

text \<open>
  The status the interpreter hands to the system: 0 after a return, the argument
  of \<^verbatim>\<open>sys.exit\<close>, 1 after any other exception nobody caught, 128 plus the
  signal's number when a signal ended the process (an uncaught
  \<^verbatim>\<open>KeyboardInterrupt\<close> makes the interpreter end itself with the interrupt
  signal, number 2); none while it still runs.
\<close>

fun exit_status :: "unit result \<Rightarrow> int option" where
  "exit_status (Inr u) = Some 0"
| "exit_status (Inl (Raised (SystemExit n))) = Some n"
| "exit_status (Inl (Raised KeyboardInterrupt)) = Some 130"
| "exit_status (Inl (Raised e)) = Some 1"
| "exit_status (Inl (OsExit n)) = Some n"
| "exit_status (Inl (Killed SIGTERM)) = Some 143"
| "exit_status (Inl (Killed SIGALRM)) = Some 142"
| "exit_status (Inl Pending) = None"

subsection \<open>Decimal text: \<^verbatim>\<open>str\<close> and \<^verbatim>\<open>int\<close>\<close>

definition digit_char :: "nat \<Rightarrow> char" where
  "digit_char d = char_of (48 + d)"

definition is_digit :: "char \<Rightarrow> bool" where
  "is_digit c = (48 \<le> (of_char c :: nat) \<and> (of_char c :: nat) \<le> 57)"

definition digit_val :: "char \<Rightarrow> nat" where
  "digit_val c = of_char c - 48"

fun digits_of :: "nat \<Rightarrow> string" where
  "digits_of n = (if n < 10 then [digit_char n] else digits_of (n div 10) @ [digit_char (n mod 10)])"

declare digits_of.simps [simp del]

text \<open>\<^verbatim>\<open>str(n)\<close> for an integer.\<close>

definition str_int :: "int \<Rightarrow> string" where
  "str_int i = (if i < 0 then CHR ''-'' # digits_of (nat (- i)) else digits_of (nat i))"

text \<open>
  \<^verbatim>\<open>int(s)\<close> for ASCII text, base ten: white space at both ends is dropped (tab,
  line feed, vertical tab, form feed, carriage return and space), one sign may
  lead, and the digits may be grouped by single underscores. \<open>None\<close> is the
  \<^verbatim>\<open>ValueError\<close>. Text outside ASCII, whose digits and spaces \<^verbatim>\<open>int()\<close> also knows,
  and the limit that newer interpreters put on the number of digits are left out:
  the theorems below take the outcome of the conversion as given.
\<close>

definition py_space :: "char \<Rightarrow> bool" where
  "py_space c = (c \<in> set [CHR 0x09, CHR 0x0A, CHR 0x0B, CHR 0x0C, CHR 0x0D, CHR 0x20])"

definition py_strip :: "string \<Rightarrow> string" where
  "py_strip s = rev (dropWhile py_space (rev (dropWhile py_space s)))"

fun py_digitpart :: "nat \<Rightarrow> string \<Rightarrow> nat option" where
  "py_digitpart acc [] = Some acc"
| "py_digitpart acc [c] = (if is_digit c then Some (10 * acc + digit_val c) else None)"
| "py_digitpart acc (c # d # cs) =
     (if is_digit c then py_digitpart (10 * acc + digit_val c) (d # cs)
      else if c = CHR ''_'' \<and> is_digit d then py_digitpart acc (d # cs)
      else None)"

definition py_unsigned :: "string \<Rightarrow> nat option" where
  "py_unsigned s =
     (case s of [] \<Rightarrow> None
      | c # cs \<Rightarrow> if is_digit c then py_digitpart (digit_val c) cs else None)"

definition py_int :: "string \<Rightarrow> int option" where
  "py_int s =
     (case py_strip s of
        [] \<Rightarrow> None
      | c # cs \<Rightarrow>
          if c = CHR ''-'' then map_option (\<lambda>n. - int n) (py_unsigned cs)
          else if c = CHR ''+'' then map_option int (py_unsigned cs)
          else map_option int (py_unsigned (c # cs)))"

section \<open>The process and the system around it\<close>

datatype level = DEBUG | INFO | WARNING | ERROR

text \<open>What a signal does on arrival: its default action, or one of the two closures of \<^verbatim>\<open>start\<close>.\<close>

datatype disposition = SIG_DFL | Cb_term_handler | Cb_alrm_handler

text \<open>
  What a path can lead to: a file the process may read, write and remove; a file
  it may only read (another user's, in a directory it may not change); a
  directory; or a refusal of the system to go there at all.
\<close>

datatype node = Regular string | ReadOnly string | Directory | Barred errno

datatype fork_result = Child int | ForkFails errno

text \<open>
  Everything the process does to the outside, in order. \<open>Kill pid None\<close> is the
  probe \<^verbatim>\<open>os.kill(pid, 0)\<close>. \<open>SetRunning\<close> marks a store to the cell \<^verbatim>\<open>running[0]\<close>,
  \<open>CallRun\<close> and \<open>CallExit\<close> an invocation of a callback. After \<open>Fork c\<close> the events
  are those of the child \<open>c\<close>; \<open>ParentSysExit\<close> and \<open>ParentOsExit\<close> record how the
  parent left.
\<close>

datatype event =
    Log level string
  | LogException py_exc
  | Stdout string
  | StdoutFlush
  | Stderr string
  | Fork int
  | ParentSysExit int
  | ParentOsExit int
  | Setsid
  | Chdir string
  | Umask int
  | Setgid int
  | Setuid int
  | OpenFile string string
  | CloseStd nat
  | Redirect nat "string option"
  | FileWrite string string
  | FileRemove string
  | Kill int "signum option"
  | SignalInstall signum disposition
  | Alarm nat
  | SetRunning bool
  | CallRun
  | CallExit

text \<open>
  The configuration of \<^verbatim>\<open>Initd.__init__\<close>, with the types that the option parser
  of \<^verbatim>\<open>DaemonCommand\<close> gives it.
\<close>

record config =
  pid_file :: string
  workdir :: string
  umask :: int
  stdout :: string
  stderr :: string
  user :: string

text \<open>
  The state. \<open>fs\<close> holds the files and directories by the path the program names
  them with (the working directory is not tracked: paths are taken as absolute,
  without doubled or trailing separators). \<open>forks\<close> lists
  what the next calls of \<^verbatim>\<open>fork\<close> give; \<open>kill_errno\<close> is the kernel's answer to
  \<^verbatim>\<open>kill(pid, sig)\<close>, \<open>None\<close> for delivered; \<open>passwd\<close> is the user database;
  \<open>uid\<close> and \<open>gid\<close> are the ids of the process; \<open>handlers\<close> and \<open>alarm\<close> are its
  signal table and timer; \<open>running\<close> is the cell \<^verbatim>\<open>running[0]\<close> that \<^verbatim>\<open>start\<close>
  shares with its handler.
\<close>

record world =
  posix :: bool
  fs :: "string \<rightharpoonup> node"
  pid :: int
  forks :: "fork_result list"
  kill_errno :: "int \<Rightarrow> errno option"
  passwd :: "string \<rightharpoonup> int \<times> int"
  uid :: int
  gid :: int
  handlers :: "signum \<Rightarrow> disposition"
  alarm :: "nat option"
  running :: bool
  events :: "event list"

text \<open>
  What the outside does to the files while the process waits or works: another
  process, or the operator, removes or writes a file.
\<close>

datatype env_action = EnvRemove string | EnvWrite string string

text \<open>
  Where a signal comes from: another process sends it, or the alarm that
  \<^verbatim>\<open>signal.alarm\<close> armed goes off.
\<close>

datatype source = Sent signum | Timer

text \<open>
  What arrives during one turn of the loop. \<open>Signal\<close> and \<open>Expiry\<close> are handled
  while \<^verbatim>\<open>run()\<close> executes, at a point where \<^verbatim>\<open>run()\<close> lets exceptions pass;
  \<open>Caught\<close> is handled inside a \<^verbatim>\<open>try\<close> block of \<^verbatim>\<open>run()\<close> that catches whatever the
  handler raises; \<open>AtTest\<close> is handled while the loop is outside its inner \<^verbatim>\<open>try\<close>
  block, at the test of line 175 (or in the \<^verbatim>\<open>except\<close> clause of line 181 of the
  turn before). Signals that arrive before line 171 or in the \<^verbatim>\<open>finally\<close> block
  are left out.
\<close>

datatype arrival =
    Signal signum
  | External env_action
  | Expiry
  | Caught source
  | AtTest source

text \<open>
  A callback is opaque: the model takes what one invocation of it ends with.
  One turn of the loop is an \<open>iteration\<close>: what arrives from outside, and how
  \<^verbatim>\<open>run()\<close> ends when no handler has raised through it.
\<close>

type_synonym callback = "unit result"

record iteration =
  arrivals :: "arrival list"
  run_does :: callback

subsection \<open>Sequencing\<close>

definition then_do :: "'a result \<times> world \<Rightarrow> ('a \<Rightarrow> world \<Rightarrow> 'b result \<times> world) \<Rightarrow> 'b result \<times> world" where
  "then_do m f = (case m of (Inl a, w) \<Rightarrow> (Inl a, w) | (Inr x, w) \<Rightarrow> f x w)"

definition emit :: "event \<Rightarrow> world \<Rightarrow> world" where
  "emit e w = w\<lparr>events := events w @ [e]\<rparr>"

definition sys_exit :: "int \<Rightarrow> world \<Rightarrow> 'a result \<times> world" where
  "sys_exit n w = (Raise (SystemExit n), w)"

definition logger :: "level \<Rightarrow> string \<Rightarrow> world \<Rightarrow> world" where
  "logger lvl msg w = emit (Log lvl msg) w"

definition logger_exception :: "py_exc \<Rightarrow> world \<Rightarrow> world" where
  "logger_exception e w = emit (LogException e) w"

definition stdout_write :: "string \<Rightarrow> world \<Rightarrow> world" where
  "stdout_write s w = emit (Stdout s) w"

definition stdout_flush :: "world \<Rightarrow> world" where
  "stdout_flush w = emit StdoutFlush w"

definition stderr_write :: "string \<Rightarrow> world \<Rightarrow> world" where
  "stderr_write s w = emit (Stderr s) w"

text \<open>\<^verbatim>\<open>str(e)\<close> for an \<^verbatim>\<open>OSError\<close> that a system call raised.\<close>

definition os_error_str :: "errno \<Rightarrow> string" where
  "os_error_str e = ''[Errno '' @ str_int (errno_code e) @ ''] '' @ strerror e"

subsection \<open>Files\<close>

text \<open>
  The directories on the way to a path: \<^verbatim>\<open>/\<close> and \<^verbatim>\<open>/run\<close> for \<^verbatim>\<open>/run/d.pid\<close>.
\<close>

fun ancestors_from :: "string \<Rightarrow> string \<Rightarrow> string list" where
  "ancestors_from seen [] = []"
| "ancestors_from seen (c # cs) =
     (if c = CHR ''/'' \<and> cs \<noteq> [] then
        (if seen = [] then [c] else seen) # ancestors_from (seen @ [c]) cs
      else ancestors_from (seen @ [c]) cs)"

definition ancestors :: "string \<Rightarrow> string list" where
  "ancestors p = ancestors_from [] p"

text \<open>
  Going down the directories: a missing one gives \<^verbatim>\<open>ENOENT\<close>, a file in the place
  of one \<^verbatim>\<open>ENOTDIR\<close>, a refusal its own error.
\<close>

fun walk :: "world \<Rightarrow> string list \<Rightarrow> errno option" where
  "walk w [] = None"
| "walk w (d # ds) =
     (case fs w d of
        None \<Rightarrow> Some ENOENT
      | Some Directory \<Rightarrow> walk w ds
      | Some (Barred e) \<Rightarrow> Some e
      | Some (Regular txt) \<Rightarrow> Some ENOTDIR
      | Some (ReadOnly txt) \<Rightarrow> Some ENOTDIR)"

text \<open>
  What the system finds at a path: an error when it cannot get there, otherwise
  the entry, or none.
\<close>

definition lookup :: "world \<Rightarrow> string \<Rightarrow> errno + node option" where
  "lookup w p =
     (if p = [] then Inl ENOENT
      else case walk w (ancestors p) of
        Some e \<Rightarrow> Inl e
      | None \<Rightarrow> (case fs w p of Some (Barred e) \<Rightarrow> Inl e | n \<Rightarrow> Inr n))"

text \<open>
  The same as a node: \<open>None\<close> is \<^verbatim>\<open>ENOENT\<close> (no such file or directory), every
  other error is a \<open>Barred\<close> node.
\<close>

definition node_at :: "world \<Rightarrow> string \<Rightarrow> node option" where
  "node_at w p =
     (case lookup w p of
        Inl e \<Rightarrow> (if e = ENOENT then None else Some (Barred e))
      | Inr n \<Rightarrow> n)"

text \<open>\<^verbatim>\<open>os.path.exists(p)\<close>: false whenever \<^verbatim>\<open>stat\<close> fails, whatever the error.\<close>

definition os_path_exists :: "world \<Rightarrow> string \<Rightarrow> bool" where
  "os_path_exists w p =
     (case node_at w p of
        None \<Rightarrow> False
      | Some (Barred e) \<Rightarrow> False
      | Some n \<Rightarrow> True)"

text \<open>\<^verbatim>\<open>open(p, 'r')\<close> and \<^verbatim>\<open>read()\<close>.\<close>

definition read_file :: "string \<Rightarrow> world \<Rightarrow> string result \<times> world" where
  "read_file p w =
     (case node_at w p of
        None \<Rightarrow> (Raise (OSError ENOENT), w)
      | Some (Barred e) \<Rightarrow> (Raise (OSError e), w)
      | Some Directory \<Rightarrow> (Raise (OSError EISDIR), w)
      | Some (Regular txt) \<Rightarrow> (Ret txt, w)
      | Some (ReadOnly txt) \<Rightarrow> (Ret txt, w))"

text \<open>
  \<^verbatim>\<open>open(p, 'w')\<close> and \<^verbatim>\<open>write(txt)\<close>: the file is created or overwritten. A
  directory on the way that is missing, and a file that may only be read, make it
  fail.
\<close>

definition write_file :: "string \<Rightarrow> string \<Rightarrow> world \<Rightarrow> unit result \<times> world" where
  "write_file p txt w =
     (case lookup w p of
        Inl e \<Rightarrow> (Raise (OSError e), w)
      | Inr (Some Directory) \<Rightarrow> (Raise (OSError EISDIR), w)
      | Inr (Some (ReadOnly old)) \<Rightarrow> (Raise (OSError EACCES), w)
      | Inr n \<Rightarrow> (Ret (), emit (FileWrite p txt) (w\<lparr>fs := (fs w)(p \<mapsto> Regular txt)\<rparr>)))"

text \<open>\<^verbatim>\<open>open(p, mode)\<close> for the modes \<^verbatim>\<open>'a'\<close> and \<^verbatim>\<open>'a+'\<close>: a missing file is created empty.\<close>

definition open_append :: "string \<Rightarrow> string \<Rightarrow> world \<Rightarrow> unit result \<times> world" where
  "open_append p mode w =
     (case lookup w p of
        Inl e \<Rightarrow> (Raise (OSError e), w)
      | Inr (Some Directory) \<Rightarrow> (Raise (OSError EISDIR), w)
      | Inr (Some (ReadOnly old)) \<Rightarrow> (Raise (OSError EACCES), w)
      | Inr (Some n) \<Rightarrow> (Ret (), emit (OpenFile p mode) w)
      | Inr None \<Rightarrow> (Ret (), emit (OpenFile p mode) (w\<lparr>fs := (fs w)(p \<mapsto> Regular [])\<rparr>)))"

definition open_read :: "string \<Rightarrow> world \<Rightarrow> unit result \<times> world" where
  "open_read p w = then_do (read_file p w) (\<lambda>txt w1. (Ret (), emit (OpenFile p ''r'') w1))"

text \<open>
  \<^verbatim>\<open>os.remove(p)\<close>: raises when there is no such file, and when the file is one the
  process may not remove.
\<close>

definition os_remove :: "string \<Rightarrow> world \<Rightarrow> unit result \<times> world" where
  "os_remove p w =
     (case node_at w p of
        None \<Rightarrow> (Raise (OSError ENOENT), w)
      | Some (Barred e) \<Rightarrow> (Raise (OSError e), w)
      | Some Directory \<Rightarrow> (Raise (OSError EISDIR), w)
      | Some (ReadOnly txt) \<Rightarrow> (Raise (OSError EACCES), w)
      | Some (Regular txt) \<Rightarrow> (Ret (), emit (FileRemove p) (w\<lparr>fs := (fs w)(p := None)\<rparr>)))"

definition os_chdir :: "string \<Rightarrow> world \<Rightarrow> unit result \<times> world" where
  "os_chdir d w =
     (case node_at w d of
        None \<Rightarrow> (Raise (OSError ENOENT), w)
      | Some (Barred e) \<Rightarrow> (Raise (OSError e), w)
      | Some (Regular txt) \<Rightarrow> (Raise (OSError ENOTDIR), w)
      | Some (ReadOnly txt) \<Rightarrow> (Raise (OSError ENOTDIR), w)
      | Some Directory \<Rightarrow> (Ret (), emit (Chdir d) w))"

definition os_umask :: "int \<Rightarrow> world \<Rightarrow> unit result \<times> world" where
  "os_umask m w = (Ret (), emit (Umask m) w)"

fun env_apply :: "env_action \<Rightarrow> world \<Rightarrow> world" where
  "env_apply (EnvRemove p) w = w\<lparr>fs := (fs w)(p := None)\<rparr>"
| "env_apply (EnvWrite p txt) w = w\<lparr>fs := (fs w)(p \<mapsto> Regular txt)\<rparr>"

subsection \<open>Processes, identities and signals\<close>

text \<open>
  \<^verbatim>\<open>os.kill(pid, sig)\<close>: a pid that does not fit the C type raises \<open>OverflowError\<close>,
  otherwise the kernel decides.
\<close>

definition os_kill :: "int \<Rightarrow> signum option \<Rightarrow> world \<Rightarrow> unit result \<times> world" where
  "os_kill p sg w =
     (if p < - (2 ^ 31) \<or> 2 ^ 31 \<le> p then (Raise OverflowError, w)
      else case kill_errno w p of
        Some e \<Rightarrow> (Raise (OSError e), w)
      | None \<Rightarrow> (Ret (), emit (Kill p sg) w))"

text \<open>
  \<^verbatim>\<open>os.fork()\<close>: the value is the child's pid, as the parent sees it. The model goes
  on in the child (\<open>in_child\<close>); what the parent does next is recorded as an event.
  With no result left the system has no process to give.
\<close>

definition os_fork :: "world \<Rightarrow> int result \<times> world" where
  "os_fork w =
     (case forks w of
        [] \<Rightarrow> (Raise (OSError EAGAIN), w)
      | ForkFails e # rest \<Rightarrow> (Raise (OSError e), w\<lparr>forks := rest\<rparr>)
      | Child c # rest \<Rightarrow> (Ret c, emit (Fork c) (w\<lparr>forks := rest\<rparr>)))"

definition in_child :: "int \<Rightarrow> world \<Rightarrow> world" where
  "in_child c w = w\<lparr>pid := c\<rparr>"

definition os_setsid :: "world \<Rightarrow> unit result \<times> world" where
  "os_setsid w = (Ret (), emit Setsid w)"

text \<open>Only the superuser may take another identity.\<close>

definition os_setgid :: "int \<Rightarrow> world \<Rightarrow> unit result \<times> world" where
  "os_setgid g w =
     (if uid w = 0 \<or> g = gid w then (Ret (), emit (Setgid g) (w\<lparr>gid := g\<rparr>))
      else (Raise (OSError EPERM), w))"

definition os_setuid :: "int \<Rightarrow> world \<Rightarrow> unit result \<times> world" where
  "os_setuid u w =
     (if uid w = 0 \<or> u = uid w then (Ret (), emit (Setuid u) (w\<lparr>uid := u\<rparr>))
      else (Raise (OSError EPERM), w))"

definition signal_signal :: "signum \<Rightarrow> disposition \<Rightarrow> world \<Rightarrow> world" where
  "signal_signal sg d w = emit (SignalInstall sg d) (w\<lparr>handlers := (handlers w)(sg := d)\<rparr>)"

definition signal_alarm :: "nat \<Rightarrow> world \<Rightarrow> world" where
  "signal_alarm n w = emit (Alarm n) (w\<lparr>alarm := Some n\<rparr>)"

section \<open>\<^verbatim>\<open>become_daemon\<close> (lines 26 to 83)\<close>

text \<open>
  The module takes \<^verbatim>\<open>become_daemon\<close> from Django when Django still has it, and
  defines it itself otherwise, one version for POSIX and one for other systems.
  The two versions of the module are modelled; Django's own is not under
  \<^verbatim>\<open>src/\<close> (the POSIX version here is a copy of it).
\<close>

definition fork_failed :: "string \<Rightarrow> errno \<Rightarrow> string" where
  "fork_failed which e =
     ''fork #'' @ which @ '' failed: ('' @ str_int (errno_code e) @ '') '' @ strerror e @ [CHR 0x0A]"

definition redirect_streams :: "string \<Rightarrow> string \<Rightarrow> world \<Rightarrow> unit result \<times> world" where
  "redirect_streams out_log err_log w =
     then_do (open_read ''/dev/null'' w) (\<lambda>_ w1.
     then_do (open_append out_log ''a+'' w1) (\<lambda>_ w2.
     then_do (open_append err_log ''a+'' w2) (\<lambda>_ w3.
       (Ret (), emit (Redirect 2 (Some err_log))
                  (emit (Redirect 1 (Some out_log))
                    (emit (Redirect 0 (Some ''/dev/null'')) w3))))))"

definition second_fork :: "string \<Rightarrow> string \<Rightarrow> world \<Rightarrow> unit result \<times> world" where
  "second_fork out_log err_log w =
     (case os_fork w of
        (Inl (Raised (OSError e)), w1) \<Rightarrow> (Inl (OsExit 1), stderr_write (fork_failed ''2'' e) w1)
      | (Inl a, w1) \<Rightarrow> (Inl a, w1)
      | (Inr c, w1) \<Rightarrow> redirect_streams out_log err_log (in_child c (emit (ParentOsExit 0) w1)))"

definition daemon_posix :: "string \<Rightarrow> string \<Rightarrow> string \<Rightarrow> int \<Rightarrow> world \<Rightarrow> unit result \<times> world" where
  "daemon_posix our_home_dir out_log err_log um w =
     (case os_fork w of
        (Inl (Raised (OSError e)), w1) \<Rightarrow> sys_exit 1 (stderr_write (fork_failed ''1'' e) w1)
      | (Inl a, w1) \<Rightarrow> (Inl a, w1)
      | (Inr c, w1) \<Rightarrow>
          then_do (os_setsid (in_child c (emit (ParentSysExit 0) w1))) (\<lambda>_ w2.
          then_do (os_chdir our_home_dir w2) (\<lambda>_ w3.
          then_do (os_umask um w3) (\<lambda>_ w4.
            second_fork out_log err_log w4))))"

text \<open>Off POSIX nothing forks; an empty log name gives the \<^verbatim>\<open>NullDevice\<close>.\<close>

definition reopen :: "nat \<Rightarrow> string \<Rightarrow> world \<Rightarrow> unit result \<times> world" where
  "reopen fd path w =
     (if path \<noteq> [] then
        then_do (open_append path ''a'' w) (\<lambda>_ w1. (Ret (), emit (Redirect fd (Some path)) w1))
      else (Ret (), emit (Redirect fd None) w))"

definition daemon_other :: "string \<Rightarrow> string \<Rightarrow> string \<Rightarrow> int \<Rightarrow> world \<Rightarrow> unit result \<times> world" where
  "daemon_other our_home_dir out_log err_log um w =
     then_do (os_chdir our_home_dir w) (\<lambda>_ w1.
     then_do (os_umask um w1) (\<lambda>_ w2.
     then_do (reopen 2 err_log (emit (CloseStd 2) (emit (CloseStd 1) (emit (CloseStd 0) w2)))) (\<lambda>_ w3.
       reopen 1 out_log w3)))"

definition become_daemon :: "string \<Rightarrow> string \<Rightarrow> string \<Rightarrow> int \<Rightarrow> world \<Rightarrow> unit result \<times> world" where
  "become_daemon our_home_dir out_log err_log um w =
     (if posix w then daemon_posix our_home_dir out_log err_log um w
      else daemon_other our_home_dir out_log err_log um w)"

section \<open>The class \<^verbatim>\<open>Initd\<close>\<close>

text \<open>
  Line 107, 193 and 233: \<^verbatim>\<open>with open(self.pid_file, 'r') as stream: pid = int(stream.read())\<close>.
\<close>

definition read_pid :: "config \<Rightarrow> world \<Rightarrow> int result \<times> world" where
  "read_pid cfg w =
     then_do (read_file (pid_file cfg) w) (\<lambda>txt w1.
       case py_int txt of
         None \<Rightarrow> (Raise ValueError, w1)
       | Some n \<Rightarrow> (Ret n, w1))"

subsection \<open>\<^verbatim>\<open>_create_pid_file\<close> (lines 253 to 264)\<close>

definition create_pid_file :: "config \<Rightarrow> world \<Rightarrow> unit result \<times> world" where
  "create_pid_file cfg w =
     (case write_file (pid_file cfg) (str_int (pid w)) w of
        (Inl (Raised (OSError e)), w1) \<Rightarrow>
          sys_exit 1 (logger ERROR ''Failed to write to pid file, exiting now.''
                       (logger_exception (OSError e) w1))
      | r \<Rightarrow> r)"

subsection \<open>\<^verbatim>\<open>start\<close> (lines 96 to 184)\<close>

text \<open>
  Lines 105 to 117. \<open>Ret True\<close>: the pid file names a process that answers the
  probe, and \<^verbatim>\<open>start\<close> returns at line 117.
\<close>

definition already_running :: "config \<Rightarrow> world \<Rightarrow> bool result \<times> world" where
  "already_running cfg w =
     (if os_path_exists w (pid_file cfg) then
        then_do (read_pid cfg w) (\<lambda>p w1.
          case os_kill p None w1 of
            (Inl (Raised (OSError e)), w2) \<Rightarrow> (Ret False, w2)
          | (Inl a, w2) \<Rightarrow> (Inl a, w2)
          | (Inr u, w2) \<Rightarrow> (Ret True, logger WARNING ''Daemon already running.'' w2))
      else (Ret False, w))"

text \<open>Lines 119 to 133.\<close>

definition change_uid :: "config \<Rightarrow> world \<Rightarrow> unit result \<times> world" where
  "change_uid cfg w =
     (if user cfg \<noteq> [] then
        (case passwd w (user cfg) of
           None \<Rightarrow> sys_exit 1 (logger ERROR (''User '' @ user cfg @ '' not found.'') w)
         | Some (u, g) \<Rightarrow>
             (case then_do (os_setgid g w) (\<lambda>_ w1. os_setuid u w1) of
                (Inl (Raised (OSError e)), w2) \<Rightarrow>
                  sys_exit 1 (logger ERROR
                    (''Unable to change uid and gid, error is: '' @ os_error_str e) w2)
              | r \<Rightarrow> r))
      else (Ret (), w))"

text \<open>Lines 156 to 166: the handler of the alarm.\<close>

definition cb_alrm_handler :: "world \<Rightarrow> unit result \<times> world" where
  "cb_alrm_handler w =
     sys_exit 1 (logger WARNING ''Could not exit gracefully.  Forcefully exiting.'' w)"

text \<open>An invocation of the \<^verbatim>\<open>exit\<close> callback: it is entered, and ends as the callback does.\<close>

definition call_exit :: "callback \<Rightarrow> world \<Rightarrow> unit result \<times> world" where
  "call_exit cb w = (cb, emit CallExit w)"

text \<open>Lines 142 to 169: the handler of the termination signal.\<close>

definition cb_term_handler :: "callback option \<Rightarrow> world \<Rightarrow> unit result \<times> world" where
  "cb_term_handler exit w =
     then_do
       (case exit of
          None \<Rightarrow> (Ret (), w)
        | Some cb \<Rightarrow> call_exit cb (logger DEBUG ''Calling exit handler'' w))
       (\<lambda>_ w1.
          (Ret (), signal_alarm 5
                     (signal_signal SIGALRM Cb_alrm_handler
                       (emit (SetRunning False) (w1\<lparr>running := False\<rparr>)))))"

text \<open>A signal goes to its handler, or ends the process when it has none.\<close>

definition dispatch :: "callback option \<Rightarrow> signum \<Rightarrow> world \<Rightarrow> unit result \<times> world" where
  "dispatch exit sg w =
     (case handlers w sg of
        SIG_DFL \<Rightarrow> (Inl (Killed sg), w)
      | Cb_term_handler \<Rightarrow> cb_term_handler exit w
      | Cb_alrm_handler \<Rightarrow> cb_alrm_handler w)"

text \<open>
  The alarm goes off only when one is armed, and is used up by going off; it
  brings the alarm signal.
\<close>

definition signalled :: "callback option \<Rightarrow> source \<Rightarrow> world \<Rightarrow> unit result \<times> world" where
  "signalled exit src w =
     (case src of
        Sent sg \<Rightarrow> dispatch exit sg w
      | Timer \<Rightarrow>
          (case alarm w of
             None \<Rightarrow> (Ret (), w)
           | Some n \<Rightarrow> dispatch exit SIGALRM (w\<lparr>alarm := None\<rparr>)))"

text \<open>
  One arrival. What a handler raises goes up from the point where the main thread
  is; inside a \<^verbatim>\<open>try\<close> block of \<^verbatim>\<open>run()\<close> that catches it (\<open>Caught\<close>) it ends there.
  When a handler raises through \<^verbatim>\<open>run()\<close>, what would have arrived later in the
  same invocation never does.
\<close>

definition arrive :: "callback option \<Rightarrow> arrival \<Rightarrow> world \<Rightarrow> unit result \<times> world" where
  "arrive exit a w =
     (case a of
        External act \<Rightarrow> (Ret (), env_apply act w)
      | Signal sg \<Rightarrow> signalled exit (Sent sg) w
      | Expiry \<Rightarrow> signalled exit Timer w
      | Caught src \<Rightarrow>
          (case signalled exit src w of
             (Inl (Raised e), w1) \<Rightarrow> (Ret (), w1)
           | r \<Rightarrow> r)
      | AtTest src \<Rightarrow> signalled exit src w)"

fun in_run :: "arrival \<Rightarrow> bool" where
  "in_run (AtTest src) = False"
| "in_run a = True"

fun at_test :: "arrival \<Rightarrow> bool" where
  "at_test (AtTest src) = True"
| "at_test a = False"

fun deliver :: "callback option \<Rightarrow> arrival list \<Rightarrow> world \<Rightarrow> unit result \<times> world" where
  "deliver exit [] w = (Ret (), w)"
| "deliver exit (a # as) w = then_do (arrive exit a w) (\<lambda>_ w1. deliver exit as w1)"

text \<open>Line 177: one invocation of \<^verbatim>\<open>run()\<close>.\<close>

definition call_run :: "callback option \<Rightarrow> iteration \<Rightarrow> world \<Rightarrow> unit result \<times> world" where
  "call_run exit it w =
     then_do (deliver exit (filter in_run (arrivals it)) (emit CallRun w))
       (\<lambda>_ w1. (run_does it, w1))"

text \<open>
  Lines 175 to 181: the loop. What arrives at the test is handled outside the
  inner \<^verbatim>\<open>try\<close> block, so what its handler raises leaves the loop. Then the loop
  reads the cell, invokes \<^verbatim>\<open>run()\<close>, logs what \<^verbatim>\<open>except Exception\<close> catches and
  lets everything else through. When the scenario has no further turn and the
  cell still holds \<^verbatim>\<open>True\<close>, the loop has not ended.
\<close>

fun run_loop :: "callback option \<Rightarrow> iteration list \<Rightarrow> world \<Rightarrow> unit result \<times> world" where
  "run_loop exit [] w = (if running w then (Inl Pending, w) else (Ret (), w))"
| "run_loop exit (it # its) w =
     (case deliver exit (filter at_test (arrivals it)) w of
        (Inl a, w0) \<Rightarrow> (Inl a, w0)
      | (Inr u0, w0) \<Rightarrow>
          if running w0 then
            (case call_run exit it w0 of
               (Inr u, w1) \<Rightarrow> run_loop exit its w1
             | (Inl (Raised e), w1) \<Rightarrow>
                 if is_Exception e then run_loop exit its (logger_exception e w1)
                 else (Raise e, w1)
             | (Inl a, w1) \<Rightarrow> (Inl a, w1))
          else (Ret (), w0))"

text \<open>
  Lines 174 to 184: the loop inside \<^verbatim>\<open>try\<close> and the \<^verbatim>\<open>finally\<close> block. The block
  runs after a return and after an exception, and what it raises takes the place
  of the exception on its way.
\<close>

definition main_loop :: "config \<Rightarrow> callback option \<Rightarrow> iteration list \<Rightarrow> world \<Rightarrow> unit result \<times> world" where
  "main_loop cfg exit its w =
     (case run_loop exit its w of
        (Inl Pending, w1) \<Rightarrow> (Inl Pending, w1)
      | (Inl (OsExit n), w1) \<Rightarrow> (Inl (OsExit n), w1)
      | (Inl (Killed sg), w1) \<Rightarrow> (Inl (Killed sg), w1)
      | (r, w1) \<Rightarrow>
          then_do (os_remove (pid_file cfg) w1) (\<lambda>_ w2. (r, logger INFO ''Exiting.'' w2)))"

text \<open>Lines 140, 171 and 173: the cell, the handler of the termination signal, the log line.\<close>

definition install_handler :: "world \<Rightarrow> world" where
  "install_handler w =
     logger INFO ''Starting''
       (signal_signal SIGTERM Cb_term_handler
         (emit (SetRunning True) (w\<lparr>running := True\<rparr>)))"

text \<open>
  Lines 105 to 173, all of \<^verbatim>\<open>start\<close> before its loop. \<open>Ret True\<close> is the return of
  line 117, \<open>Ret False\<close> a process that has detached, written its pid file and is
  about to enter the loop.
\<close>

definition start_prologue :: "config \<Rightarrow> world \<Rightarrow> bool result \<times> world" where
  "start_prologue cfg w =
     then_do (already_running cfg w) (\<lambda>live w0.
       if live then (Ret True, w0)
       else
         then_do (change_uid cfg w0) (\<lambda>_ w1.
         then_do (become_daemon (workdir cfg) (stdout cfg) (stderr cfg) (umask cfg) w1) (\<lambda>_ w2.
         then_do (create_pid_file cfg w2) (\<lambda>_ w3.
           (Ret False, install_handler w3)))))"

definition start :: "config \<Rightarrow> callback option \<Rightarrow> iteration list \<Rightarrow> world \<Rightarrow> unit result \<times> world" where
  "start cfg exit its w =
     then_do (start_prologue cfg w) (\<lambda>live w4.
       if live then (Ret (), w4) else main_loop cfg exit its w4)"

subsection \<open>\<^verbatim>\<open>stop\<close> (lines 186 to 212)\<close>

fun time_sleep :: "env_action list \<Rightarrow> world \<Rightarrow> world" where
  "time_sleep [] w = w"
| "time_sleep (a # as) w = time_sleep as (env_apply a w)"

text \<open>
  \<^verbatim>\<open>stop\<close> is not alone with the files. Of the list that it is given, the first
  element is what the outside does between the reading of the pid file (line
  194) and the signal (line 203); each later element is what it does during one
  \<^verbatim>\<open>time.sleep(0.5)\<close>.
\<close>

definition meanwhile :: "env_action list list \<Rightarrow> world \<Rightarrow> world" where
  "meanwhile ticks w = (case ticks of [] \<Rightarrow> w | t # ts \<Rightarrow> time_sleep t w)"

text \<open>
  Lines 208 to 211. When the list is used up nothing changes any more: a pid
  file that is still there stays, and the loop never ends.
\<close>

fun wait_gone :: "config \<Rightarrow> env_action list list \<Rightarrow> world \<Rightarrow> unit result \<times> world" where
  "wait_gone cfg [] w =
     (if os_path_exists w (pid_file cfg) then (Inl Pending, w) else (Ret (), w))"
| "wait_gone cfg (t # ts) w =
     (if os_path_exists w (pid_file cfg) then
        wait_gone cfg ts (time_sleep t (stdout_flush (stdout_write ''.'' w)))
      else (Ret (), w))"

definition stop :: "config \<Rightarrow> env_action list list \<Rightarrow> world \<Rightarrow> unit result \<times> world" where
  "stop cfg ticks w =
     (case read_pid cfg w of
        (Inl (Raised (OSError e)), w1) \<Rightarrow>
          if e \<noteq> ENOENT then (Raise (OSError e), w1)
          else (Ret (), stdout_write (''Stopped.'' @ [CHR 0x0A]) w1)
      | (Inl a, w1) \<Rightarrow> (Inl a, w1)
      | (Inr p, w1) \<Rightarrow>
          (case os_kill p (Some SIGTERM)
                  (meanwhile ticks (stdout_flush (stdout_write ''Stopping.'' w1))) of
             (Inl (Raised (OSError e)), w2) \<Rightarrow>
               os_remove (pid_file cfg)
                 (logger WARNING (''Could not kill process: '' @ os_error_str e) w2)
           | (Inl a, w2) \<Rightarrow> (Inl a, w2)
           | (Inr u, w2) \<Rightarrow>
               then_do (wait_gone cfg (tl ticks) w2) (\<lambda>_ w3.
                 (Ret (), stdout_write [CHR 0x0A] w3))))"

text \<open>
  The state in which \<^verbatim>\<open>stop\<close> reaches the removal of line 206, after a signal
  that could not be delivered.
\<close>

definition before_remove :: "config \<Rightarrow> env_action list list \<Rightarrow> errno \<Rightarrow> world \<Rightarrow> world" where
  "before_remove cfg ticks e w =
     logger WARNING (''Could not kill process: '' @ os_error_str e)
       (meanwhile ticks (stdout_flush (stdout_write ''Stopping.'' w)))"

subsection \<open>\<^verbatim>\<open>restart\<close> (lines 214 to 225)\<close>

definition restart :: "config \<Rightarrow> callback option \<Rightarrow> env_action list list \<Rightarrow> iteration list \<Rightarrow> world \<Rightarrow> unit result \<times> world" where
  "restart cfg exit ticks its w =
     then_do (if os_path_exists w (pid_file cfg) then stop cfg ticks w else (Ret (), w)) (\<lambda>_ w1.
       start cfg exit its (stdout_write (''Starting.'' @ [CHR 0x0A]) w1))"

text \<open>
  The composition the specification equates \<^verbatim>\<open>restart\<close> with, in its words: if a
  pid file exists, perform \<^verbatim>\<open>stop\<close>; then perform \<^verbatim>\<open>start\<close> unconditionally.
\<close>

definition stop_then_start :: "config \<Rightarrow> callback option \<Rightarrow> env_action list list \<Rightarrow> iteration list \<Rightarrow> world \<Rightarrow> unit result \<times> world" where
  "stop_then_start cfg exit ticks its w =
     then_do (if os_path_exists w (pid_file cfg) then stop cfg ticks w else (Ret (), w)) (\<lambda>_ w1.
       start cfg exit its w1)"

subsection \<open>\<^verbatim>\<open>status\<close> (lines 227 to 247)\<close>

definition status :: "config \<Rightarrow> world \<Rightarrow> unit result \<times> world" where
  "status cfg w =
     (if os_path_exists w (pid_file cfg) then
        then_do (read_pid cfg w) (\<lambda>p w1.
          case os_kill p None w1 of
            (Inl (Raised (OSError e)), w2) \<Rightarrow> (Ret (), stdout_write (''Stopped.'' @ [CHR 0x0A]) w2)
          | (Inl a, w2) \<Rightarrow> (Inl a, w2)
          | (Inr u, w2) \<Rightarrow> (Ret (), stdout_write (''Running.'' @ [CHR 0x0A]) w2))
      else (Ret (), stdout_flush (stdout_write (''Stopped.'' @ [CHR 0x0A]) w)))"

section \<open>Histories\<close>

text \<open>
  No function above reads \<open>events\<close>; they only append to it. \<open>shift pre\<close> puts an
  older history in front of a state, \<open>fresh\<close> forgets the history, and \<open>added w w'\<close>
  is what \<open>w'\<close> has recorded beyond \<open>w\<close>.
\<close>

definition shift :: "event list \<Rightarrow> world \<Rightarrow> world" where
  "shift pre w = w\<lparr>events := pre @ events w\<rparr>"

definition lift :: "event list \<Rightarrow> 'a result \<times> world \<Rightarrow> 'a result \<times> world" where
  "lift pre m = (fst m, shift pre (snd m))"

definition fresh :: "world \<Rightarrow> world" where
  "fresh w = w\<lparr>events := []\<rparr>"

definition added :: "world \<Rightarrow> world \<Rightarrow> event list" where
  "added w w' = drop (length (events w)) (events w')"

text \<open>
  The events of setting up: all but the writes to the pid file, the stores to the
  cell, the signal calls and the invocations of the callbacks. \<open>grows w w'\<close>: from
  \<open>w\<close> to \<open>w'\<close> only such events were added, and the signal table, the alarm and
  the cell are as they were.
\<close>

fun quiet_event :: "event \<Rightarrow> bool" where
  "quiet_event (FileWrite p txt) = False"
| "quiet_event (FileRemove p) = False"
| "quiet_event (SignalInstall sg d) = False"
| "quiet_event (Alarm n) = False"
| "quiet_event (SetRunning b) = False"
| "quiet_event CallRun = False"
| "quiet_event CallExit = False"
| "quiet_event e = True"

definition grows :: "world \<Rightarrow> world \<Rightarrow> bool" where
  "grows w w' =
     ((\<exists>es. events w' = events w @ es \<and> list_all quiet_event es)
      \<and> handlers w' = handlers w \<and> alarm w' = alarm w \<and> running w' = running w)"

text \<open>
  \<open>exit_first False es\<close>: when \<open>es\<close> has a store of \<^verbatim>\<open>False\<close> to the cell, an
  invocation of \<^verbatim>\<open>exit\<close> stands before the first one.
\<close>

fun exit_first :: "bool \<Rightarrow> event list \<Rightarrow> bool" where
  "exit_first seen [] = True"
| "exit_first seen (e # es) =
     (if e = SetRunning False then seen else exit_first (seen \<or> e = CallExit) es)"

text \<open>The termination signals of a scenario, wherever they are handled.\<close>

fun is_sigterm :: "arrival \<Rightarrow> bool" where
  "is_sigterm (Signal sg) = (sg = SIGTERM)"
| "is_sigterm (Caught src) = (src = Sent SIGTERM)"
| "is_sigterm (AtTest src) = (src = Sent SIGTERM)"
| "is_sigterm a = False"

definition sigterms :: "iteration list \<Rightarrow> nat" where
  "sigterms its = length (filter is_sigterm (concat (map arrivals its)))"

text \<open>
  The ends of an invocation of \<^verbatim>\<open>run()\<close> after which the loop goes on: a return,
  or an exception that \<^verbatim>\<open>except Exception\<close> catches.
\<close>

fun survives :: "unit result \<Rightarrow> bool" where
  "survives (Inr u) = True"
| "survives (Inl (Raised e)) = is_Exception e"
| "survives (Inl a) = False"

section \<open>Concrete systems\<close>

definition demo_cfg :: config where
  "demo_cfg = \<lparr>pid_file = ''/run/d.pid'', workdir = ''/'', umask = 18,
               stdout = ''/dev/null'', stderr = ''/dev/null'', user = []\<rparr>"

text \<open>A host with no pid file, seen from the process (pid 100) that is about to call a verb.\<close>

definition fresh_host :: world where
  "fresh_host =
     \<lparr>posix = True, fs = [''/'' \<mapsto> Directory, ''/dev'' \<mapsto> Directory, ''/run'' \<mapsto> Directory,
                         ''/dev/null'' \<mapsto> Regular []], pid = 100,
      forks = [Child 101, Child 102], kill_errno = (\<lambda>p. Some ESRCH), passwd = Map.empty,
      uid = 1000, gid = 1000, handlers = (\<lambda>sg. SIG_DFL), alarm = None, running = False,
      events = []\<rparr>"

text \<open>The pid file names process 4242, which is alive.\<close>

definition live_host :: world where
  "live_host =
     fresh_host\<lparr>fs := [''/'' \<mapsto> Directory, ''/dev'' \<mapsto> Directory, ''/run'' \<mapsto> Directory,
                         ''/dev/null'' \<mapsto> Regular [],
                         ''/run/d.pid'' \<mapsto> Regular ''4242''],
                 kill_errno := (\<lambda>p. if p = 4242 then None else Some ESRCH)\<rparr>"

text \<open>The pid file names process 4242, which is gone.\<close>

definition stale_host :: world where
  "stale_host =
     fresh_host\<lparr>fs := [''/'' \<mapsto> Directory, ''/dev'' \<mapsto> Directory, ''/run'' \<mapsto> Directory,
                         ''/dev/null'' \<mapsto> Regular [],
                         ''/run/d.pid'' \<mapsto> Regular ''4242'']\<rparr>"

text \<open>The pid file holds text that is no number.\<close>

definition garbled_host :: world where
  "garbled_host =
     fresh_host\<lparr>fs := [''/'' \<mapsto> Directory, ''/dev'' \<mapsto> Directory, ''/run'' \<mapsto> Directory,
                         ''/dev/null'' \<mapsto> Regular [],
                         ''/run/d.pid'' \<mapsto> Regular ''4242x'']\<rparr>"

text \<open>The daemon (pid 102) at the head of its loop.\<close>

definition daemon_host :: world where
  "daemon_host =
     \<lparr>posix = True, fs = [''/'' \<mapsto> Directory, ''/dev'' \<mapsto> Directory, ''/run'' \<mapsto> Directory,
                         ''/dev/null'' \<mapsto> Regular [],
                          ''/run/d.pid'' \<mapsto> Regular ''102''], pid = 102,
      forks = [], kill_errno = (\<lambda>p. Some ESRCH), passwd = Map.empty,
      uid = 1000, gid = 1000, handlers = (\<lambda>sg. SIG_DFL)(SIGTERM := Cb_term_handler),
      alarm = None, running = True, events = []\<rparr>"

definition calm :: iteration where
  "calm = \<lparr>arrivals = [], run_does = Ret ()\<rparr>"

text \<open>The pid file is another user's: it can be read, not removed. Process 4242 is gone.\<close>

definition foreign_host :: world where
  "foreign_host =
     fresh_host\<lparr>fs := [''/'' \<mapsto> Directory, ''/dev'' \<mapsto> Directory, ''/run'' \<mapsto> Directory,
                         ''/dev/null'' \<mapsto> Regular [],
                         ''/run/d.pid'' \<mapsto> ReadOnly ''4242'']\<rparr>"

text \<open>The daemon after a termination signal, started without an \<^verbatim>\<open>exit\<close> callback.\<close>

definition armed_host :: world where
  "armed_host = snd (cb_term_handler None daemon_host)"

text \<open>A configuration whose pid file is named below a file.\<close>

definition odd_cfg :: config where
  "odd_cfg = demo_cfg\<lparr>pid_file := ''/dev/null/d.pid''\<rparr>"

section \<open>Decimal text can be read back\<close>

lemma is_digit_digit_char: "d < 10 \<Longrightarrow> is_digit (digit_char d)"
  by (simp add: is_digit_def digit_char_def)

lemma digit_val_digit_char: "d < 10 \<Longrightarrow> digit_val (digit_char d) = d"
  by (simp add: digit_val_def digit_char_def)

lemma digit_not_space: "is_digit c \<Longrightarrow> \<not> py_space c"
  by (auto simp: is_digit_def py_space_def)

lemma digit_not_sign: "is_digit c \<Longrightarrow> c \<noteq> CHR ''-'' \<and> c \<noteq> CHR ''+''"
  by (auto simp: is_digit_def)

lemma digits_of_all_digits: "\<forall>c \<in> set (digits_of n). is_digit c"
  by (induction n rule: digits_of.induct) (subst digits_of.simps, auto simp: is_digit_digit_char)

lemma digits_of_nonempty: "digits_of n \<noteq> []"
  by (subst digits_of.simps) simp

lemma py_digitpart_digits:
  "\<forall>c \<in> set cs. is_digit c \<Longrightarrow> py_digitpart acc cs = Some (foldl (\<lambda>a c. 10 * a + digit_val c) acc cs)"
  by (induction acc cs rule: py_digitpart.induct) auto

lemma py_unsigned_digits:
  "cs \<noteq> [] \<Longrightarrow> \<forall>c \<in> set cs. is_digit c \<Longrightarrow> py_unsigned cs = Some (foldl (\<lambda>a c. 10 * a + digit_val c) 0 cs)"
  by (cases cs) (auto simp: py_unsigned_def py_digitpart_digits)

lemma foldl_digits_of: "foldl (\<lambda>a c. 10 * a + digit_val c) 0 (digits_of n) = n"
proof (induction n rule: digits_of.induct)
  case (1 n)
  show ?case
  proof (cases "n < 10")
    case True
    then show ?thesis by (subst digits_of.simps) (simp add: digit_val_digit_char)
  next
    case False
    with 1 show ?thesis by (subst digits_of.simps) (simp add: digit_val_digit_char)
  qed
qed

lemma py_unsigned_digits_of: "py_unsigned (digits_of n) = Some n"
  by (simp add: py_unsigned_digits digits_of_nonempty digits_of_all_digits foldl_digits_of)

lemma py_strip_id: "cs \<noteq> [] \<Longrightarrow> \<not> py_space (hd cs) \<Longrightarrow> \<not> py_space (last cs) \<Longrightarrow> py_strip cs = cs"
proof -
  assume ne: "cs \<noteq> []" and h: "\<not> py_space (hd cs)" and l: "\<not> py_space (last cs)"
  from ne h have a: "dropWhile py_space cs = cs" by (cases cs) auto
  from ne l have b: "dropWhile py_space (rev cs) = rev cs"
    by (cases "rev cs") (auto simp: last_rev [symmetric] simp del: last_rev)
  show ?thesis by (simp add: py_strip_def a b)
qed

lemma last_digits_of: "is_digit (last (digits_of n))"
  using digits_of_all_digits [of n] digits_of_nonempty [of n] last_in_set by blast

lemma hd_digits_of: "is_digit (hd (digits_of n))"
  using digits_of_all_digits [of n] digits_of_nonempty [of n] hd_in_set by blast

lemma py_int_str_int: "py_int (str_int i) = Some i"
proof (cases "i < 0")
  case True
  have "py_strip (CHR ''-'' # digits_of (nat (- i))) = CHR ''-'' # digits_of (nat (- i))"
  proof (rule py_strip_id)
    show "CHR ''-'' # digits_of (nat (- i)) \<noteq> []" by simp
    show "\<not> py_space (hd (CHR ''-'' # digits_of (nat (- i))))" by (simp add: py_space_def)
    show "\<not> py_space (last (CHR ''-'' # digits_of (nat (- i))))"
      by (simp add: digits_of_nonempty digit_not_space last_digits_of)
  qed
  with True show ?thesis
    by (simp add: py_int_def str_int_def py_unsigned_digits_of)
next
  case False
  have s: "py_strip (digits_of (nat i)) = digits_of (nat i)"
    by (rule py_strip_id) (auto simp: digits_of_nonempty digit_not_space last_digits_of hd_digits_of)
  obtain c cs where d: "digits_of (nat i) = c # cs"
    using digits_of_nonempty [of "nat i"] by (cases "digits_of (nat i)") auto
  have "is_digit c" using hd_digits_of [of "nat i"] d by simp
  then have "c \<noteq> CHR ''-''" "c \<noteq> CHR ''+''" using digit_not_sign by auto
  moreover have "py_unsigned (c # cs) = Some (nat i)" using py_unsigned_digits_of [of "nat i"] d by simp
  ultimately show ?thesis using False s d
    by (simp add: py_int_def str_int_def)
qed

lemma str_int_inj: "str_int i = str_int j \<Longrightarrow> i = j"
  by (metis py_int_str_int option.inject)

section \<open>The history is never read\<close>

text \<open>
  Every operation commutes with putting an older history in front: what it does
  and what it adds do not depend on what was recorded before.
\<close>

lemma shift_fields [simp]:
  "posix (shift pre w) = posix w" "fs (shift pre w) = fs w" "pid (shift pre w) = pid w"
  "forks (shift pre w) = forks w" "kill_errno (shift pre w) = kill_errno w"
  "passwd (shift pre w) = passwd w" "uid (shift pre w) = uid w" "gid (shift pre w) = gid w"
  "handlers (shift pre w) = handlers w" "alarm (shift pre w) = alarm w"
  "running (shift pre w) = running w" "events (shift pre w) = pre @ events w"
  by (simp_all add: shift_def)

lemma shift_updates [simp]:
  "(shift pre w)\<lparr>fs := a\<rparr> = shift pre (w\<lparr>fs := a\<rparr>)"
  "(shift pre w)\<lparr>pid := b\<rparr> = shift pre (w\<lparr>pid := b\<rparr>)"
  "(shift pre w)\<lparr>forks := c\<rparr> = shift pre (w\<lparr>forks := c\<rparr>)"
  "(shift pre w)\<lparr>uid := d\<rparr> = shift pre (w\<lparr>uid := d\<rparr>)"
  "(shift pre w)\<lparr>gid := e\<rparr> = shift pre (w\<lparr>gid := e\<rparr>)"
  "(shift pre w)\<lparr>handlers := f\<rparr> = shift pre (w\<lparr>handlers := f\<rparr>)"
  "(shift pre w)\<lparr>alarm := g\<rparr> = shift pre (w\<lparr>alarm := g\<rparr>)"
  "(shift pre w)\<lparr>running := h\<rparr> = shift pre (w\<lparr>running := h\<rparr>)"
  by (simp_all add: shift_def)

lemma emit_shift [simp]: "emit e (shift pre w) = shift pre (emit e w)"
  by (simp add: shift_def emit_def)

lemma lift_pair [simp]: "lift pre (r, w) = (r, shift pre w)"
  by (simp add: lift_def)

lemma then_do_lift:
  "(\<And>x w. f x (shift pre w) = lift pre (f x w)) \<Longrightarrow> then_do (lift pre m) f = lift pre (then_do m f)"
  by (cases m) (auto simp: then_do_def split: sum.splits)

lemma env_apply_shift [simp]: "env_apply a (shift pre w) = shift pre (env_apply a w)"
  by (cases a) simp_all

lemma time_sleep_shift [simp]: "time_sleep t (shift pre w) = shift pre (time_sleep t w)"
  by (induction t arbitrary: w) simp_all

lemma walk_shift [simp]: "walk (shift pre w) ds = walk w ds"
  by (induction ds) (simp_all split: option.splits node.splits)

lemma lookup_shift [simp]: "lookup (shift pre w) p = lookup w p"
  by (cases "walk w (ancestors p)") (simp_all add: lookup_def)

lemma node_at_shift [simp]: "node_at (shift pre w) p = node_at w p"
  by (simp add: node_at_def)

lemma os_path_exists_shift [simp]: "os_path_exists (shift pre w) p = os_path_exists w p"
  by (simp add: os_path_exists_def)

lemma logger_shift [simp]:
  "logger l m (shift pre w) = shift pre (logger l m w)"
  "logger_exception e (shift pre w) = shift pre (logger_exception e w)"
  "stdout_write s (shift pre w) = shift pre (stdout_write s w)"
  "stdout_flush (shift pre w) = shift pre (stdout_flush w)"
  "stderr_write s (shift pre w) = shift pre (stderr_write s w)"
  "signal_signal sg d (shift pre w) = shift pre (signal_signal sg d w)"
  "signal_alarm n (shift pre w) = shift pre (signal_alarm n w)"
  "in_child c (shift pre w) = shift pre (in_child c w)"
  by (simp_all add: logger_def logger_exception_def stdout_write_def stdout_flush_def
      stderr_write_def signal_signal_def signal_alarm_def in_child_def)

lemma sys_exit_shift [simp]: "sys_exit n (shift pre w) = lift pre (sys_exit n w)"
  by (simp add: sys_exit_def)

lemma read_file_shift [simp]: "read_file p (shift pre w) = lift pre (read_file p w)"
  by (simp add: read_file_def split: option.splits node.splits)

lemma write_file_shift [simp]: "write_file p t (shift pre w) = lift pre (write_file p t w)"
  by (simp add: write_file_def split: sum.splits option.splits node.splits)

lemma open_append_shift [simp]: "open_append p m (shift pre w) = lift pre (open_append p m w)"
  by (simp add: open_append_def split: sum.splits option.splits node.splits)

lemma open_read_shift [simp]: "open_read p (shift pre w) = lift pre (open_read p w)"
  by (simp add: open_read_def then_do_lift)

lemma os_remove_shift [simp]: "os_remove p (shift pre w) = lift pre (os_remove p w)"
  by (simp add: os_remove_def split: option.splits node.splits)

lemma os_chdir_shift [simp]: "os_chdir p (shift pre w) = lift pre (os_chdir p w)"
  by (simp add: os_chdir_def split: option.splits node.splits)

lemma os_misc_shift [simp]:
  "os_umask m (shift pre w) = lift pre (os_umask m w)"
  "os_setsid (shift pre w) = lift pre (os_setsid w)"
  "os_setgid g (shift pre w) = lift pre (os_setgid g w)"
  "os_setuid u (shift pre w) = lift pre (os_setuid u w)"
  "os_kill p sg (shift pre w) = lift pre (os_kill p sg w)"
  by (simp_all add: os_umask_def os_setsid_def os_setgid_def os_setuid_def os_kill_def
      split: option.splits)

lemma os_fork_shift [simp]: "os_fork (shift pre w) = lift pre (os_fork w)"
  by (simp add: os_fork_def split: list.splits fork_result.splits)

lemma read_pid_shift [simp]: "read_pid cfg (shift pre w) = lift pre (read_pid cfg w)"
  by (simp add: read_pid_def then_do_lift split: option.splits)


lemmas result_splits = prod.splits sum.splits abort.splits py_exc.splits

lemma create_pid_file_shift [simp]: "create_pid_file cfg (shift pre w) = lift pre (create_pid_file cfg w)"
  by (cases "write_file (pid_file cfg) (str_int (pid w)) w")
     (simp add: create_pid_file_def split: result_splits)

lemma probe_shift:
  "(case lift pre (os_kill p None w) of
            (Inl (Raised (OSError e)), w2) \<Rightarrow> (Ret False, w2)
          | (Inl a, w2) \<Rightarrow> (Inl a, w2)
          | (Inr u, w2) \<Rightarrow> (Ret True, logger WARNING ''Daemon already running.'' w2))
       = lift pre (case os_kill p None w of
            (Inl (Raised (OSError e)), w2) \<Rightarrow> (Ret False, w2)
          | (Inl a, w2) \<Rightarrow> (Inl a, w2)
          | (Inr u, w2) \<Rightarrow> (Ret True, logger WARNING ''Daemon already running.'' w2))"
  by (cases "os_kill p None w") (simp split: result_splits)

lemma already_running_shift [simp]: "already_running cfg (shift pre w) = lift pre (already_running cfg w)"
  by (simp add: already_running_def then_do_lift probe_shift)

lemma change_uid_shift [simp]: "change_uid cfg (shift pre w) = lift pre (change_uid cfg w)"
proof (cases "passwd w (user cfg)")
  case None
  then show ?thesis by (simp add: change_uid_def)
next
  case (Some ug)
  obtain u g where ug: "ug = (u, g)" by (cases ug)
  show ?thesis
    by (cases "then_do (os_setgid g w) (\<lambda>_ w1. os_setuid u w1)")
       (simp add: change_uid_def Some ug then_do_lift split: result_splits)
qed

lemma redirect_streams_shift [simp]:
  "redirect_streams a b (shift pre w) = lift pre (redirect_streams a b w)"
  by (simp add: redirect_streams_def then_do_lift)

lemma second_fork_shift [simp]: "second_fork a b (shift pre w) = lift pre (second_fork a b w)"
  by (cases "os_fork w") (simp add: second_fork_def split: result_splits)

lemma daemon_posix_shift [simp]: "daemon_posix d a b m (shift pre w) = lift pre (daemon_posix d a b m w)"
  by (cases "os_fork w") (simp add: daemon_posix_def then_do_lift split: result_splits)

lemma reopen_shift [simp]: "reopen fd p (shift pre w) = lift pre (reopen fd p w)"
  by (simp add: reopen_def then_do_lift)

lemma daemon_other_shift [simp]: "daemon_other d a b m (shift pre w) = lift pre (daemon_other d a b m w)"
  by (simp add: daemon_other_def then_do_lift)

lemma become_daemon_shift [simp]: "become_daemon d a b m (shift pre w) = lift pre (become_daemon d a b m w)"
  by (simp add: become_daemon_def)

lemma cb_alrm_handler_shift [simp]: "cb_alrm_handler (shift pre w) = lift pre (cb_alrm_handler w)"
  by (simp add: cb_alrm_handler_def)

lemma cb_term_handler_shift [simp]: "cb_term_handler ex (shift pre w) = lift pre (cb_term_handler ex w)"
  by (cases ex) (simp_all add: cb_term_handler_def call_exit_def then_do_def split: sum.splits)

lemma dispatch_shift [simp]: "dispatch ex sg (shift pre w) = lift pre (dispatch ex sg w)"
  by (simp add: dispatch_def split: disposition.splits)

lemma signalled_shift [simp]: "signalled ex src (shift pre w) = lift pre (signalled ex src w)"
  by (simp add: signalled_def split: source.splits option.splits)

lemma caught_shift:
  "(case lift pre m of (Inl (Raised e), w1) \<Rightarrow> (Ret (), w1) | r \<Rightarrow> r)
   = lift pre (case m of (Inl (Raised e), w1) \<Rightarrow> (Ret (), w1) | r \<Rightarrow> r)"
  by (cases m) (simp split: result_splits)

lemma arrive_shift [simp]: "arrive ex a (shift pre w) = lift pre (arrive ex a w)"
  by (simp add: arrive_def caught_shift split: arrival.splits)

lemma deliver_shift [simp]: "deliver ex as (shift pre w) = lift pre (deliver ex as w)"
  by (induction as arbitrary: w) (simp_all add: then_do_lift)

lemma call_run_shift [simp]: "call_run ex it (shift pre w) = lift pre (call_run ex it w)"
  by (simp add: call_run_def then_do_lift)

lemma run_loop_shift [simp]: "run_loop ex its (shift pre w) = lift pre (run_loop ex its w)"
proof (induction its arbitrary: w)
  case Nil
  show ?case by simp
next
  case (Cons it its)
  obtain r0 w0 where d: "deliver ex (filter at_test (arrivals it)) w = (r0, w0)"
    by (cases "deliver ex (filter at_test (arrivals it)) w")
  show ?case
    by (cases "call_run ex it w0") (simp add: Cons d split: result_splits)
qed

lemma main_loop_shift [simp]: "main_loop cfg ex its (shift pre w) = lift pre (main_loop cfg ex its w)"
  by (cases "run_loop ex its w") (simp add: main_loop_def then_do_lift split: result_splits)

lemma install_handler_shift [simp]: "install_handler (shift pre w) = shift pre (install_handler w)"
  by (simp add: install_handler_def)

lemma start_prologue_shift [simp]: "start_prologue cfg (shift pre w) = lift pre (start_prologue cfg w)"
  by (simp add: start_prologue_def then_do_lift)

lemma start_shift [simp]: "start cfg ex its (shift pre w) = lift pre (start cfg ex its w)"
  by (simp add: start_def then_do_lift)

lemma meanwhile_shift [simp]: "meanwhile ts (shift pre w) = shift pre (meanwhile ts w)"
  by (simp add: meanwhile_def split: list.splits)

lemma wait_gone_shift [simp]: "wait_gone cfg ts (shift pre w) = lift pre (wait_gone cfg ts w)"
  by (induction ts arbitrary: w) simp_all

lemma stop_tail_shift:
  "(case lift pre (os_kill p (Some SIGTERM) w) of
             (Inl (Raised (OSError e)), w2) \<Rightarrow>
               os_remove (pid_file cfg)
                 (logger WARNING (''Could not kill process: '' @ os_error_str e) w2)
           | (Inl a, w2) \<Rightarrow> (Inl a, w2)
           | (Inr u, w2) \<Rightarrow>
               then_do (wait_gone cfg ticks w2) (\<lambda>_ w3.
                 (Ret (), stdout_write [CHR 0x0A] w3)))
   = lift pre (case os_kill p (Some SIGTERM) w of
             (Inl (Raised (OSError e)), w2) \<Rightarrow>
               os_remove (pid_file cfg)
                 (logger WARNING (''Could not kill process: '' @ os_error_str e) w2)
           | (Inl a, w2) \<Rightarrow> (Inl a, w2)
           | (Inr u, w2) \<Rightarrow>
               then_do (wait_gone cfg ticks w2) (\<lambda>_ w3.
                 (Ret (), stdout_write [CHR 0x0A] w3)))"
  by (cases "os_kill p (Some SIGTERM) w") (simp add: then_do_lift split: result_splits)

lemma stop_shift [simp]: "stop cfg ts (shift pre w) = lift pre (stop cfg ts w)"
proof (cases "read_pid cfg w")
  case (Pair r w1)
  show ?thesis
    using stop_tail_shift [where pre = pre and cfg = cfg and ticks = "tl ts"]
    by (simp add: stop_def Pair split: result_splits)
qed

lemma status_tail_shift:
  "(case lift pre (os_kill p None w) of
            (Inl (Raised (OSError e)), w2) \<Rightarrow> (Ret (), stdout_write (''Stopped.'' @ [CHR 0x0A]) w2)
          | (Inl a, w2) \<Rightarrow> (Inl a, w2)
          | (Inr u, w2) \<Rightarrow> (Ret (), stdout_write (''Running.'' @ [CHR 0x0A]) w2))
   = lift pre (case os_kill p None w of
            (Inl (Raised (OSError e)), w2) \<Rightarrow> (Ret (), stdout_write (''Stopped.'' @ [CHR 0x0A]) w2)
          | (Inl a, w2) \<Rightarrow> (Inl a, w2)
          | (Inr u, w2) \<Rightarrow> (Ret (), stdout_write (''Running.'' @ [CHR 0x0A]) w2))"
  by (cases "os_kill p None w") (simp split: result_splits)

lemma status_shift [simp]: "status cfg (shift pre w) = lift pre (status cfg w)"
  by (simp add: status_def then_do_lift status_tail_shift)

section \<open>Unfolding sets\<close>

lemmas host_defs = demo_cfg_def fresh_host_def live_host_def stale_host_def garbled_host_def
  daemon_host_def calm_def foreign_host_def odd_cfg_def armed_host_def

lemmas file_defs = ancestors_def lookup_def node_at_def os_path_exists_def read_file_def
  write_file_def open_append_def open_read_def os_remove_def os_chdir_def os_umask_def

lemmas io_defs = then_do_def emit_def sys_exit_def logger_def logger_exception_def
  stdout_write_def stdout_flush_def stderr_write_def

lemmas proc_defs = os_kill_def os_fork_def in_child_def os_setsid_def os_setgid_def os_setuid_def
  signal_signal_def signal_alarm_def

lemmas daemon_defs = fork_failed_def redirect_streams_def second_fork_def daemon_posix_def
  reopen_def daemon_other_def become_daemon_def

lemmas initd_defs = read_pid_def create_pid_file_def already_running_def change_uid_def
  cb_alrm_handler_def call_exit_def cb_term_handler_def dispatch_def signalled_def arrive_def
  call_run_def main_loop_def install_handler_def start_prologue_def start_def meanwhile_def
  stop_def restart_def status_def

lemmas text_defs = py_int_def py_strip_def py_space_def py_unsigned_def is_digit_def
  digit_val_def digit_char_def str_int_def digits_of.simps os_error_str_def

section \<open>Facts about the loop\<close>

lemma shift_fresh: "shift (events w) (fresh w) = w"
  by (simp add: shift_def fresh_def)

lemma run_loop_events:
  "events (snd (run_loop ex its w)) = events w @ events (snd (run_loop ex its (fresh w)))"
proof -
  have "run_loop ex its (shift (events w) (fresh w)) = lift (events w) (run_loop ex its (fresh w))"
    by (rule run_loop_shift)
  then show ?thesis by (simp add: shift_fresh lift_def)
qed

lemma run_loop_Ret: "run_loop ex its w = (Ret (), w') \<Longrightarrow> \<not> running w'"
proof (induction its arbitrary: w)
  case Nil
  then show ?case by (simp split: if_splits)
next
  case (Cons it its)
  obtain r0 w0 where d: "deliver ex (filter at_test (arrivals it)) w = (r0, w0)"
    by (cases "deliver ex (filter at_test (arrivals it)) w")
  from Cons d show ?case
    by (cases "call_run ex it w0") (auto split: if_splits result_splits)
qed

lemma term_handler_Raise:
  "cb_term_handler ex w = (Raise e, w') \<Longrightarrow> ex = Some (Raise e) \<and> last (events w') = CallExit"
  by (auto simp: cb_term_handler_def call_exit_def then_do_def emit_def logger_def
      split: option.splits sum.splits)

lemma dispatch_Raise:
  "dispatch ex sg w = (Raise e, w') \<Longrightarrow> is_Exception e \<Longrightarrow>
   ex = Some (Raise e) \<and> last (events w') = CallExit"
  by (cases "handlers w sg")
     (auto simp: dispatch_def cb_alrm_handler_def sys_exit_def dest: term_handler_Raise)

lemma signalled_Raise:
  "signalled ex src w = (Raise e, w') \<Longrightarrow> is_Exception e \<Longrightarrow>
   ex = Some (Raise e) \<and> last (events w') = CallExit"
  by (cases src; cases "alarm w") (auto simp: signalled_def dest: dispatch_Raise)

lemma arrive_Raise:
  "arrive ex a w = (Raise e, w') \<Longrightarrow> is_Exception e \<Longrightarrow>
   ex = Some (Raise e) \<and> last (events w') = CallExit"
proof (cases a)
  case (Caught src)
  assume "arrive ex a w = (Raise e, w')"
  with Caught have False
    by (cases "signalled ex src w") (auto simp: arrive_def split: result_splits)
  then show ?thesis ..
qed (auto simp: arrive_def dest: signalled_Raise)

lemma deliver_Raise:
  "deliver ex as w = (Raise e, w') \<Longrightarrow> is_Exception e \<Longrightarrow>
   ex = Some (Raise e) \<and> last (events w') = CallExit"
proof (induction as arbitrary: w)
  case Nil
  then show ?case by simp
next
  case (Cons a as)
  obtain r w1 where a: "arrive ex a w = (r, w1)" by (cases "arrive ex a w")
  show ?case
  proof (cases r)
    case (Inl x)
    with Cons.prems a have "arrive ex a w = (Raise e, w')" by (simp add: then_do_def)
    from arrive_Raise [OF this Cons.prems(2)] show ?thesis .
  next
    case (Inr u)
    with Cons.prems a have "deliver ex as w1 = (Raise e, w')" by (simp add: then_do_def)
    from Cons.IH [OF this Cons.prems(2)] show ?thesis .
  qed
qed

lemma run_loop_Raise:
  "run_loop ex its w = (Raise e, w') \<Longrightarrow> is_Exception e \<Longrightarrow>
   ex = Some (Raise e) \<and> last (events w') = CallExit"
proof (induction its arbitrary: w)
  case Nil
  then show ?case by (simp split: if_splits)
next
  case (Cons it its)
  obtain r0 w0 where d: "deliver ex (filter at_test (arrivals it)) w = (r0, w0)"
    by (cases "deliver ex (filter at_test (arrivals it)) w")
  show ?case
  proof (cases r0)
    case (Inl x)
    with Cons.prems d have "deliver ex (filter at_test (arrivals it)) w = (Raise e, w')" by simp
    from deliver_Raise [OF this Cons.prems(2)] show ?thesis .
  next
    case (Inr u)
    with Cons d show ?thesis
      by (cases "call_run ex it w0") (auto split: if_splits result_splits)
  qed
qed

lemma call_run_events:
  "events (snd (call_run ex it w)) = events w @ events (snd (call_run ex it (fresh w)))"
proof -
  have "call_run ex it (shift (events w) (fresh w)) = lift (events w) (call_run ex it (fresh w))"
    by (rule call_run_shift)
  then show ?thesis by (simp add: shift_fresh lift_def)
qed

lemma count_run_loop: "count_list (events w) x \<le> count_list (events (snd (run_loop ex its w))) x"
  by (subst run_loop_events) simp

lemma deliver_events:
  "events (snd (deliver ex as w)) = events w @ events (snd (deliver ex as (fresh w)))"
proof -
  have "deliver ex as (shift (events w) (fresh w)) = lift (events w) (deliver ex as (fresh w))"
    by (rule deliver_shift)
  then show ?thesis by (simp add: shift_fresh lift_def)
qed

lemma snd_call_run:
  "snd (call_run ex it w) = snd (deliver ex (filter in_run (arrivals it)) (emit CallRun w))"
  by (cases "deliver ex (filter in_run (arrivals it)) (emit CallRun w)")
     (simp add: call_run_def then_do_def split: sum.splits)

lemma count_call_run:
  "count_list (events w) CallRun + 1 \<le> count_list (events (snd (call_run ex it w))) CallRun"
  by (simp add: snd_call_run, subst deliver_events, simp add: emit_def)

lemma count_first_run:
  assumes "running w" and "filter at_test (arrivals it) = []"
  shows "count_list (events w) CallRun + 1
           \<le> count_list (events (snd (run_loop ex (it # its) w))) CallRun"
proof (cases "call_run ex it w")
  case (Pair r w1)
  have a: "count_list (events w) CallRun + 1 \<le> count_list (events w1) CallRun"
    using count_call_run [of w ex it] Pair by simp
  have b: "count_list (events w1) CallRun \<le> count_list (events (snd (run_loop ex its w1))) CallRun"
    by (rule count_run_loop)
  have c: "count_list (events w1) CallRun
             \<le> count_list (events (snd (run_loop ex its (logger_exception e w1)))) CallRun" for e
    using count_run_loop [of "logger_exception e w1" CallRun ex its]
    by (simp add: logger_exception_def emit_def)
  show ?thesis
    using assms a b c Pair
    by (auto split: result_splits intro: order_trans)
qed

lemma step_returns:
  "running w \<Longrightarrow> arrivals it = [] \<Longrightarrow> run_does it = Ret () \<Longrightarrow>
   run_loop ex (it # its) w = run_loop ex its (w\<lparr>events := events w @ [CallRun]\<rparr>)"
  by (simp add: call_run_def then_do_def emit_def)

lemma step_raises:
  "running w \<Longrightarrow> arrivals it = [] \<Longrightarrow> run_does it = Raise x \<Longrightarrow> is_Exception x \<Longrightarrow>
   run_loop ex (it # its) w = run_loop ex its (w\<lparr>events := events w @ [CallRun, LogException x]\<rparr>)"
  by (simp add: call_run_def then_do_def emit_def logger_exception_def)

lemma start_events:
  "start cfg ex its w = lift (events w) (start cfg ex its (fresh w))"
  using start_shift [of cfg ex its "events w" "fresh w"] by (simp add: shift_fresh)

lemma emit_as_shift: "emit e w = shift (events w @ [e]) (fresh w)"
  by (simp add: emit_def shift_def fresh_def)

lemma fresh_shift [simp]: "fresh (shift pre w) = fresh w"
  by (simp add: fresh_def shift_def)

lemma fresh_emit [simp]: "fresh (emit e w) = fresh w"
  by (simp add: fresh_def emit_def)

lemma events_emit [simp]: "events (emit e w) = events w @ [e]"
  by (simp add: emit_def)

section \<open>What setting up records\<close>

lemma grows_refl [simp]: "grows w w"
  by (simp add: grows_def)

lemma grows_trans: "grows a b \<Longrightarrow> grows b c \<Longrightarrow> grows a c"
  by (auto simp: grows_def)

lemma grows_emit: "quiet_event e \<Longrightarrow> grows w v \<Longrightarrow> grows w (emit e v)"
  by (auto simp: grows_def emit_def)

lemma grows_update [simp]:
  "grows w (v\<lparr>fs := a\<rparr>) = grows w v"
  "grows w (v\<lparr>pid := b\<rparr>) = grows w v"
  "grows w (v\<lparr>forks := c\<rparr>) = grows w v"
  "grows w (v\<lparr>uid := d\<rparr>) = grows w v"
  "grows w (v\<lparr>gid := e\<rparr>) = grows w v"
  by (simp_all add: grows_def)

lemma grows_then_do:
  "grows w (snd m) \<Longrightarrow> (\<And>x v. grows v (snd (f x v))) \<Longrightarrow> grows w (snd (then_do m f))"
  by (cases m) (auto simp: then_do_def split: sum.splits intro: grows_trans)

lemma snd_read_pid [simp]: "snd (read_pid cfg w) = w"
  by (simp add: read_pid_def read_file_def then_do_def split: option.splits node.splits)

lemma os_kill_grows: "grows w (snd (os_kill p sg w))"
  by (simp add: os_kill_def grows_emit split: option.splits)


lemma already_running_grows: "grows w (snd (already_running cfg w))"
proof (cases "os_path_exists w (pid_file cfg)")
  case False
  then show ?thesis by (simp add: already_running_def)
next
  case True
  obtain r where r: "read_pid cfg w = (r, w)"
    using snd_read_pid [of cfg w] by (cases "read_pid cfg w") simp
  show ?thesis
  proof (cases r)
    case (Inl a)
    with True r show ?thesis by (simp add: already_running_def then_do_def)
  next
    case (Inr p)
    obtain k w2 where k: "os_kill p None w = (k, w2)" by (cases "os_kill p None w")
    then have g: "grows w w2" using os_kill_grows [of w p None] by simp
    then have "grows w (logger WARNING ''Daemon already running.'' w2)"
      by (simp add: logger_def grows_emit)
    with True r Inr k g show ?thesis
      by (simp add: already_running_def then_do_def split: result_splits)
  qed
qed

lemma os_setid_grows: "grows w (snd (os_setgid g w))" "grows w (snd (os_setuid u w))"
  by (simp_all add: os_setgid_def os_setuid_def grows_emit)

lemma change_uid_grows: "grows w (snd (change_uid cfg w))"
proof (cases "user cfg \<noteq> []")
  case False
  then show ?thesis by (simp add: change_uid_def)
next
  case True
  show ?thesis
  proof (cases "passwd w (user cfg)")
    case None
    with True show ?thesis by (simp add: change_uid_def sys_exit_def logger_def grows_emit)
  next
    case (Some ug)
    obtain u g where ug: "ug = (u, g)" by (cases ug)
    obtain r w2 where m: "then_do (os_setgid g w) (\<lambda>_ w1. os_setuid u w1) = (r, w2)"
      by (cases "then_do (os_setgid g w) (\<lambda>_ w1. os_setuid u w1)")
    have "grows w (snd (then_do (os_setgid g w) (\<lambda>_ w1. os_setuid u w1)))"
      by (intro grows_then_do os_setid_grows)
    with m have g: "grows w w2" by simp
    then have "grows w (logger ERROR msg w2)" for msg
      by (simp add: logger_def grows_emit)
    with True Some ug m g show ?thesis
      by (simp add: change_uid_def sys_exit_def split: result_splits)
  qed
qed


lemma open_append_grows: "grows w (snd (open_append p m w))"
  by (simp add: open_append_def grows_emit split: sum.splits option.splits node.splits)

lemma open_read_grows: "grows w (snd (open_read p w))"
  by (simp add: open_read_def read_file_def then_do_def grows_emit
      split: option.splits node.splits)

lemma os_chdir_grows: "grows w (snd (os_chdir p w))"
  by (simp add: os_chdir_def grows_emit split: option.splits node.splits)

lemma os_fork_grows: "grows w (snd (os_fork w))"
  by (simp add: os_fork_def grows_emit split: list.splits fork_result.splits)

lemma os_umask_grows: "grows w (snd (os_umask m w))"
  by (simp add: os_umask_def grows_emit)

lemma os_setsid_grows: "grows w (snd (os_setsid w))"
  by (simp add: os_setsid_def grows_emit)

lemma redirect_streams_grows: "grows w (snd (redirect_streams a b w))"
  unfolding redirect_streams_def
  by (intro grows_then_do open_read_grows open_append_grows) (simp add: grows_emit)

lemma second_fork_grows: "grows w (snd (second_fork a b w))"
proof (cases "os_fork w")
  case (Pair r w1)
  have g: "grows w w1" using os_fork_grows [of w] Pair by simp
  have e: "grows w (stderr_write msg w1)" for msg
    using g by (simp add: stderr_write_def grows_emit)
  have "grows w (in_child c (emit (ParentOsExit 0) w1))" for c
    using g by (simp add: in_child_def grows_emit)
  then have "grows w (snd (redirect_streams a b (in_child c (emit (ParentOsExit 0) w1))))" for c
    using redirect_streams_grows grows_trans by blast
  with g e Pair show ?thesis
    by (simp add: second_fork_def split: result_splits)
qed

lemma daemon_posix_grows: "grows w (snd (daemon_posix d a b m w))"
proof (cases "os_fork w")
  case (Pair r w1)
  have g: "grows w w1" using os_fork_grows [of w] Pair by simp
  have e: "grows w (stderr_write msg w1)" for msg
    using g by (simp add: stderr_write_def grows_emit)
  have c: "grows w (in_child c (emit (ParentSysExit 0) w1))" for c
    using g by (simp add: in_child_def grows_emit)
  have "grows w (snd (then_do (os_setsid (in_child c (emit (ParentSysExit 0) w1))) (\<lambda>_ w2.
          then_do (os_chdir d w2) (\<lambda>_ w3.
          then_do (os_umask m w3) (\<lambda>_ w4.
            second_fork a b w4)))))" for c
    by (intro grows_then_do os_chdir_grows second_fork_grows os_umask_grows
        grows_trans [OF c os_setsid_grows])
  with g e Pair show ?thesis
    by (simp add: daemon_posix_def sys_exit_def split: result_splits)
qed

lemma reopen_grows: "grows w (snd (reopen fd p w))"
  unfolding reopen_def
  by (auto intro!: grows_then_do open_append_grows simp: grows_emit)

lemma daemon_other_grows: "grows w (snd (daemon_other d a b m w))"
  unfolding daemon_other_def
proof (intro grows_then_do os_chdir_grows reopen_grows os_umask_grows)
  fix x v
  have "grows v (emit (CloseStd 2) (emit (CloseStd 1) (emit (CloseStd 0) v)))"
    by (simp add: grows_emit)
  then show "grows v (snd (reopen 2 b (emit (CloseStd 2) (emit (CloseStd 1) (emit (CloseStd 0) v)))))"
    using reopen_grows grows_trans by blast
qed

lemma become_daemon_grows: "grows w (snd (become_daemon d a b m w))"
  by (simp add: become_daemon_def daemon_posix_grows daemon_other_grows)


lemma open_append_proc: "pid (snd (open_append p m w)) = pid w \<and> forks (snd (open_append p m w)) = forks w"
  by (simp add: open_append_def emit_def split: sum.splits option.splits node.splits)

lemma open_read_proc: "pid (snd (open_read p w)) = pid w \<and> forks (snd (open_read p w)) = forks w"
  by (simp add: open_read_def read_file_def then_do_def emit_def split: option.splits node.splits)

lemma os_chdir_proc: "pid (snd (os_chdir p w)) = pid w \<and> forks (snd (os_chdir p w)) = forks w"
  by (simp add: os_chdir_def emit_def split: option.splits node.splits)

lemma os_misc_proc:
  "pid (snd (os_setsid w)) = pid w \<and> forks (snd (os_setsid w)) = forks w"
  "pid (snd (os_umask m w)) = pid w \<and> forks (snd (os_umask m w)) = forks w"
  by (simp_all add: os_setsid_def os_umask_def emit_def)

lemma then_do_Ret:
  assumes "then_do m f = (Ret y, v)"
  obtains x w' where "m = (Ret x, w')" and "f x w' = (Ret y, v)"
  using assms by (cases m) (auto simp: then_do_def split: sum.splits)

lemma then_do_proc:
  assumes "pid (snd m) = pid w \<and> forks (snd m) = forks w"
      and "\<And>x v. pid (snd (f x v)) = pid v \<and> forks (snd (f x v)) = forks v"
  shows "pid (snd (then_do m f)) = pid w \<and> forks (snd (then_do m f)) = forks w"
  using assms by (cases m) (auto simp: then_do_def split: sum.splits)

lemma redirect_streams_snd:
  "pid (snd (redirect_streams a b w)) = pid w \<and> forks (snd (redirect_streams a b w)) = forks w"
  unfolding redirect_streams_def
  by (intro then_do_proc open_read_proc open_append_proc) (simp add: emit_def)

lemma redirect_streams_proc:
  "redirect_streams a b w = (r, v) \<Longrightarrow> pid v = pid w \<and> forks v = forks w"
  using redirect_streams_snd [of a b w] by simp


lemma second_fork_pid:
  "second_fork a b w = (Ret (), v) \<Longrightarrow> \<exists>c rest. forks w = Child c # rest \<and> pid v = c"
proof -
  assume h: "second_fork a b w = (Ret (), v)"
  obtain r w1 where f: "os_fork w = (r, w1)" by (cases "os_fork w")
  from h f obtain c where c: "r = Ret c"
    by (cases r) (auto simp: second_fork_def split: result_splits)
  from f c obtain rest where k: "forks w = Child c # rest" "pid w1 = pid w"
    by (auto simp: os_fork_def emit_def split: list.splits fork_result.splits)
  from h f c have "redirect_streams a b (in_child c (emit (ParentOsExit 0) w1)) = (Ret (), v)"
    by (simp add: second_fork_def)
  from redirect_streams_proc [OF this] have "pid v = c"
    by (simp add: in_child_def emit_def)
  with k show ?thesis by simp
qed

lemma daemon_posix_pid:
  "daemon_posix d a b m w = (Ret (), v) \<Longrightarrow>
   \<exists>c1 c2 rest. forks w = Child c1 # Child c2 # rest \<and> pid v = c2"
proof -
  assume h: "daemon_posix d a b m w = (Ret (), v)"
  obtain r w1 where f: "os_fork w = (r, w1)" by (cases "os_fork w")
  from h f obtain c1 where c: "r = Ret c1"
    by (cases r) (auto simp: daemon_posix_def sys_exit_def split: result_splits)
  from f c obtain rest where k: "forks w = Child c1 # rest" "forks w1 = rest"
    by (auto simp: os_fork_def emit_def split: list.splits fork_result.splits)
  let ?w = "in_child c1 (emit (ParentSysExit 0) w1)"
  from h f c have "then_do (os_setsid ?w) (\<lambda>_ w2.
          then_do (os_chdir d w2) (\<lambda>_ w3.
          then_do (os_umask m w3) (\<lambda>_ w4.
            second_fork a b w4))) = (Ret (), v)"
    by (simp add: daemon_posix_def)
  then obtain x2 w2 where s2: "os_setsid ?w = (Ret x2, w2)"
    and "then_do (os_chdir d w2) (\<lambda>_ w3.
          then_do (os_umask m w3) (\<lambda>_ w4. second_fork a b w4)) = (Ret (), v)"
    by (rule then_do_Ret)
  then obtain x3 w3 where s3: "os_chdir d w2 = (Ret x3, w3)"
    and "then_do (os_umask m w3) (\<lambda>_ w4. second_fork a b w4) = (Ret (), v)"
    by (meson then_do_Ret)
  then obtain x4 w4 where s4: "os_umask m w3 = (Ret x4, w4)"
    and s: "second_fork a b w4 = (Ret (), v)"
    by (meson then_do_Ret)
  have "forks w2 = forks ?w" using os_misc_proc(1) [of ?w] s2 by simp
  moreover have "forks w3 = forks w2" using os_chdir_proc [of d w2] s3 by simp
  moreover have "forks w4 = forks w3" using os_misc_proc(2) [of m w3] s4 by simp
  ultimately have fk: "forks w4 = forks w1" by (simp add: in_child_def emit_def)
  from second_fork_pid [OF s] fk k show ?thesis by auto
qed

lemma reopen_proc: "pid (snd (reopen fd p w)) = pid w \<and> forks (snd (reopen fd p w)) = forks w"
  unfolding reopen_def
  by (auto intro!: then_do_proc open_append_proc simp: emit_def)

lemma daemon_other_snd:
  "pid (snd (daemon_other d a b m w)) = pid w \<and> forks (snd (daemon_other d a b m w)) = forks w"
  unfolding daemon_other_def
proof (intro then_do_proc os_chdir_proc os_misc_proc reopen_proc)
  fix x v
  have "pid (snd (reopen 2 b (emit (CloseStd 2) (emit (CloseStd 1) (emit (CloseStd 0) v)))))
          = pid (emit (CloseStd 2) (emit (CloseStd 1) (emit (CloseStd 0) v)))
      \<and> forks (snd (reopen 2 b (emit (CloseStd 2) (emit (CloseStd 1) (emit (CloseStd 0) v)))))
          = forks (emit (CloseStd 2) (emit (CloseStd 1) (emit (CloseStd 0) v)))"
    by (rule reopen_proc)
  then show "pid (snd (reopen 2 b (emit (CloseStd 2) (emit (CloseStd 1) (emit (CloseStd 0) v))))) = pid v
      \<and> forks (snd (reopen 2 b (emit (CloseStd 2) (emit (CloseStd 1) (emit (CloseStd 0) v))))) = forks v"
    by (simp add: emit_def)
qed

lemma daemon_other_pid: "daemon_other d a b m w = (r, v) \<Longrightarrow> pid v = pid w"
  using daemon_other_snd [of d a b m w] by simp

lemma become_daemon_pid:
  assumes "become_daemon d a b m w = (Ret (), v)"
  shows "(posix w \<longrightarrow> (\<exists>c1 c2 rest. forks w = Child c1 # Child c2 # rest \<and> pid v = c2))
       \<and> (\<not> posix w \<longrightarrow> pid v = pid w)"
  using assms daemon_posix_pid [of d a b m w v] daemon_other_pid [of d a b m w "Ret ()" v]
  by (auto simp: become_daemon_def split: if_splits)

lemma already_running_False: "already_running cfg w = (Ret False, v) \<Longrightarrow> v = w"
  by (auto simp: already_running_def read_pid_def read_file_def then_do_def os_kill_def
      split: option.splits node.splits if_splits)

lemma change_uid_proc: "change_uid cfg w = (r, v) \<Longrightarrow> pid v = pid w \<and> forks v = forks w \<and> posix v = posix w"
  by (auto simp: change_uid_def then_do_def os_setgid_def os_setuid_def sys_exit_def logger_def emit_def
      split: option.splits if_splits)

lemma write_file_cases:
  "write_file p t w = (Ret (), w\<lparr>fs := (fs w)(p \<mapsto> Regular t), events := events w @ [FileWrite p t]\<rparr>)
   \<or> (\<exists>e. write_file p t w = (Raise (OSError e), w))"
  by (simp add: write_file_def emit_def split: sum.splits option.splits node.splits)

lemma create_pid_file_Ret:
  "create_pid_file cfg w = (Ret (), v) \<Longrightarrow>
   v = w\<lparr>fs := (fs w)(pid_file cfg \<mapsto> Regular (str_int (pid w))),
         events := events w @ [FileWrite (pid_file cfg) (str_int (pid w))]\<rparr>"
  using write_file_cases [of "pid_file cfg" "str_int (pid w)" w]
  by (auto simp: create_pid_file_def sys_exit_def)


lemma quiet_no_write: "list_all quiet_event es \<Longrightarrow> FileWrite p t \<notin> set es"
  by (auto simp: list_all_iff)

lemma start_prologue_False:
  assumes "start_prologue cfg w = (Ret False, w')"
  obtains w1 w2 where "already_running cfg w = (Ret False, w)"
    and "change_uid cfg w = (Ret (), w1)"
    and "become_daemon (workdir cfg) (stdout cfg) (stderr cfg) (umask cfg) w1 = (Ret (), w2)"
    and "create_pid_file cfg w2 = (Ret (), w2\<lparr>fs := (fs w2)(pid_file cfg \<mapsto> Regular (str_int (pid w2))),
         events := events w2 @ [FileWrite (pid_file cfg) (str_int (pid w2))]\<rparr>)"
    and "w' = install_handler (w2\<lparr>fs := (fs w2)(pid_file cfg \<mapsto> Regular (str_int (pid w2))),
         events := events w2 @ [FileWrite (pid_file cfg) (str_int (pid w2))]\<rparr>)"
proof -
  obtain r0 w0 where a: "already_running cfg w = (r0, w0)" by (cases "already_running cfg w")
  with assms have r0: "r0 = Ret False"
    by (cases r0) (auto simp: start_prologue_def then_do_def split: if_splits)
  with a have w0: "w0 = w" using already_running_False by blast
  obtain r1 w1 where b: "change_uid cfg w = (r1, w1)" by (cases "change_uid cfg w")
  with assms a r0 w0 have r1: "r1 = Ret ()"
    by (cases r1) (auto simp: start_prologue_def then_do_def)
  obtain r2 w2 where c: "become_daemon (workdir cfg) (stdout cfg) (stderr cfg) (umask cfg) w1 = (r2, w2)"
    by (cases "become_daemon (workdir cfg) (stdout cfg) (stderr cfg) (umask cfg) w1")
  with assms a r0 w0 b r1 have r2: "r2 = Ret ()"
    by (cases r2) (auto simp: start_prologue_def then_do_def)
  obtain r3 w3 where d: "create_pid_file cfg w2 = (r3, w3)" by (cases "create_pid_file cfg w2")
  with assms a r0 w0 b r1 c r2 have r3: "r3 = Ret ()" and e: "w' = install_handler w3"
    by (cases r3; auto simp: start_prologue_def then_do_def)+
  from create_pid_file_Ret d r3
  have "w3 = w2\<lparr>fs := (fs w2)(pid_file cfg \<mapsto> Regular (str_int (pid w2))),
         events := events w2 @ [FileWrite (pid_file cfg) (str_int (pid w2))]\<rparr>" by blast
  with that a r0 w0 b r1 c r2 d r3 e show thesis by blast
qed

section \<open>Invocations of the \<^verbatim>\<open>exit\<close> callback\<close>

lemma exit_first_True [simp]: "exit_first True es"
  by (induction es) auto

lemma exit_first_append:
  "exit_first s (xs @ ys) =
     (if SetRunning False \<in> set xs then exit_first s xs
      else exit_first (s \<or> CallExit \<in> set xs) ys)"
  by (induction xs arbitrary: s) (simp_all add: eq_commute [of CallExit])

lemma exit_first_none: "SetRunning False \<notin> set es \<Longrightarrow> exit_first s es"
  by (induction es arbitrary: s) auto

lemma exit_first_more:
  "exit_first s xs \<Longrightarrow> SetRunning False \<notin> set ys \<Longrightarrow> exit_first s (xs @ ys)"
  by (simp add: exit_first_append exit_first_none)

lemma term_handler_events:
  "events (snd (cb_term_handler ex w)) =
     events w @
       (case ex of None \<Rightarrow> [SetRunning False, SignalInstall SIGALRM Cb_alrm_handler, Alarm 5]
        | Some (Inr u) \<Rightarrow> [Log DEBUG ''Calling exit handler'', CallExit, SetRunning False,
                          SignalInstall SIGALRM Cb_alrm_handler, Alarm 5]
        | Some (Inl a) \<Rightarrow> [Log DEBUG ''Calling exit handler'', CallExit])"
  by (simp add: cb_term_handler_def call_exit_def then_do_def logger_def emit_def signal_signal_def
      signal_alarm_def split: option.splits sum.splits)

lemma term_handler_table:
  "handlers w SIGALRM \<noteq> Cb_term_handler \<Longrightarrow>
   handlers (snd (cb_term_handler ex w)) SIGALRM \<noteq> Cb_term_handler"
  by (simp add: cb_term_handler_def call_exit_def then_do_def logger_def emit_def signal_signal_def
      signal_alarm_def split: option.splits sum.splits)

lemma alrm_handler_events:
  "events (snd (cb_alrm_handler w)) =
     events w @ [Log WARNING ''Could not exit gracefully.  Forcefully exiting.'']"
  "handlers (snd (cb_alrm_handler w)) = handlers w"
  by (simp_all add: cb_alrm_handler_def sys_exit_def logger_def emit_def)

lemma env_apply_same [simp]:
  "events (env_apply a w) = events w" "handlers (env_apply a w) = handlers w"
  by (cases a; simp)+

lemma env_apply_proc [simp]: "kill_errno (env_apply a w) = kill_errno w"
  by (cases a) simp_all

lemma time_sleep_proc [simp]:
  "kill_errno (time_sleep t w) = kill_errno w" "events (time_sleep t w) = events w"
  by (induction t arbitrary: w) simp_all

lemma meanwhile_proc:
  "kill_errno (meanwhile ticks w) = kill_errno w" "events (meanwhile ticks w) = events w"
  by (simp_all add: meanwhile_def split: list.splits)

lemma snd_caught: "snd (case m of (Inl (Raised e), w1) \<Rightarrow> (Ret (), w1) | r \<Rightarrow> r) = snd m"
  by (cases m) (simp split: result_splits)

lemma dispatch_exit_first:
  "exit_first False (events w) \<Longrightarrow> exit_first False (events (snd (dispatch (Some cb) sg w)))"
  by (cases cb; cases "handlers w sg")
     (simp_all add: dispatch_def term_handler_events alrm_handler_events exit_first_append)

lemma signalled_exit_first:
  "exit_first False (events w) \<Longrightarrow> exit_first False (events (snd (signalled (Some cb) src w)))"
proof (cases src)
  case (Sent sg)
  assume "exit_first False (events w)"
  with Sent show ?thesis by (simp add: signalled_def dispatch_exit_first)
next
  case Timer
  assume e: "exit_first False (events w)"
  show ?thesis
  proof (cases "alarm w")
    case None
    with Timer e show ?thesis by (simp add: signalled_def)
  next
    case (Some n)
    from e have "exit_first False (events (w\<lparr>alarm := None\<rparr>))" by simp
    from dispatch_exit_first [OF this] Timer Some show ?thesis by (simp add: signalled_def)
  qed
qed

lemma arrive_exit_first:
  "exit_first False (events w) \<Longrightarrow> exit_first False (events (snd (arrive (Some cb) a w)))"
  by (cases a) (simp_all add: arrive_def signalled_exit_first snd_caught)

lemma deliver_exit_first:
  "exit_first False (events w) \<Longrightarrow> exit_first False (events (snd (deliver (Some cb) as w)))"
proof (induction as arbitrary: w)
  case Nil
  then show ?case by simp
next
  case (Cons a as)
  obtain r w1 where a: "arrive (Some cb) a w = (r, w1)" by (cases "arrive (Some cb) a w")
  with Cons.prems arrive_exit_first [of w cb a] have "exit_first False (events w1)" by simp
  with Cons.IH a show ?case by (cases r) (simp_all add: then_do_def)
qed

lemma call_run_exit_first:
  "exit_first False (events w) \<Longrightarrow> exit_first False (events (snd (call_run (Some cb) it w)))"
  by (simp add: snd_call_run deliver_exit_first emit_def exit_first_more)

lemma run_loop_exit_first:
  "exit_first False (events w) \<Longrightarrow> exit_first False (events (snd (run_loop (Some cb) its w)))"
proof (induction its arbitrary: w)
  case Nil
  then show ?case by simp
next
  case (Cons it its)
  obtain r0 w0 where d: "deliver (Some cb) (filter at_test (arrivals it)) w = (r0, w0)"
    by (cases "deliver (Some cb) (filter at_test (arrivals it)) w")
  with Cons.prems deliver_exit_first [of w cb "filter at_test (arrivals it)"]
  have e0: "exit_first False (events w0)" by simp
  obtain r w1 where c: "call_run (Some cb) it w0 = (r, w1)" by (cases "call_run (Some cb) it w0")
  with e0 call_run_exit_first [of w0 cb it] have e: "exit_first False (events w1)" by simp
  then have "exit_first False (events (logger_exception x w1))" for x
    by (simp add: logger_exception_def emit_def exit_first_more)
  with Cons.IH d e0 c e show ?case
    by (auto split: result_splits)
qed

lemma os_remove_events:
  "events (snd (os_remove p w)) = events w \<or> events (snd (os_remove p w)) = events w @ [FileRemove p]"
  by (simp add: os_remove_def emit_def split: option.splits node.splits)

lemma main_loop_tail:
  "\<exists>es. events (snd (main_loop cfg ex its w)) = events (snd (run_loop ex its w)) @ es
        \<and> set es \<subseteq> {FileRemove (pid_file cfg), Log INFO ''Exiting.''}"
proof (cases "run_loop ex its w")
  case (Pair r w1)
  have "\<exists>es. events (snd (then_do (os_remove (pid_file cfg) w1) (\<lambda>_ w2. (r', logger INFO ''Exiting.'' w2))))
              = events w1 @ es \<and> set es \<subseteq> {FileRemove (pid_file cfg), Log INFO ''Exiting.''}" for r' :: "unit result"
    by (simp add: os_remove_def then_do_def emit_def logger_def split: option.splits node.splits)
  with Pair show ?thesis
    by (simp add: main_loop_def split: result_splits)
qed

lemma main_loop_exit_first:
  assumes "exit_first False (events w)"
  shows "exit_first False (events (snd (main_loop cfg (Some cb) its w)))"
proof -
  obtain es where es: "events (snd (main_loop cfg (Some cb) its w))
                        = events (snd (run_loop (Some cb) its w)) @ es"
      "set es \<subseteq> {FileRemove (pid_file cfg), Log INFO ''Exiting.''}"
    using main_loop_tail by blast
  then have "SetRunning False \<notin> set es" by auto
  with es(1) run_loop_exit_first [OF assms] show ?thesis by (simp add: exit_first_more)
qed


lemma term_handler_count:
  "count_list (events (snd (cb_term_handler ex w))) CallExit \<le> count_list (events w) CallExit + 1"
  by (simp add: term_handler_events split: option.splits sum.splits)

lemma dispatch_count:
  assumes "handlers w SIGALRM \<noteq> Cb_term_handler"
  shows "count_list (events (snd (dispatch ex sg w))) CallExit
           \<le> count_list (events w) CallExit + (if sg = SIGTERM then 1 else 0)
         \<and> handlers (snd (dispatch ex sg w)) SIGALRM \<noteq> Cb_term_handler"
proof (cases sg)
  case SIGTERM
  with assms term_handler_count [of ex w] term_handler_table [of w ex] show ?thesis
    by (simp add: dispatch_def alrm_handler_events split: disposition.splits)
next
  case SIGALRM
  with assms show ?thesis
    by (simp add: dispatch_def alrm_handler_events split: disposition.splits)
qed

lemma signalled_count:
  assumes "handlers w SIGALRM \<noteq> Cb_term_handler"
  shows "count_list (events (snd (signalled ex src w))) CallExit
           \<le> count_list (events w) CallExit + (if src = Sent SIGTERM then 1 else 0)
         \<and> handlers (snd (signalled ex src w)) SIGALRM \<noteq> Cb_term_handler"
proof (cases src)
  case (Sent sg)
  with dispatch_count [OF assms, of ex sg] show ?thesis by (simp add: signalled_def)
next
  case Timer
  show ?thesis
  proof (cases "alarm w")
    case None
    with Timer assms show ?thesis by (simp add: signalled_def)
  next
    case (Some n)
    from assms have "handlers (w\<lparr>alarm := None\<rparr>) SIGALRM \<noteq> Cb_term_handler" by simp
    from dispatch_count [OF this, of ex SIGALRM] Timer Some show ?thesis
      by (simp add: signalled_def)
  qed
qed

lemma arrive_count:
  assumes "handlers w SIGALRM \<noteq> Cb_term_handler"
  shows "count_list (events (snd (arrive ex a w))) CallExit
           \<le> count_list (events w) CallExit + length (filter is_sigterm [a])
         \<and> handlers (snd (arrive ex a w)) SIGALRM \<noteq> Cb_term_handler"
proof (cases a)
  case (External act)
  with assms show ?thesis by (simp add: arrive_def)
next
  case (Signal sg)
  with signalled_count [OF assms, of ex "Sent sg"] show ?thesis
    by (auto simp: arrive_def split: if_splits)
next
  case Expiry
  with signalled_count [OF assms, of ex Timer] show ?thesis by (simp add: arrive_def)
next
  case (Caught src)
  with signalled_count [OF assms, of ex src] show ?thesis
    by (auto simp: arrive_def snd_caught split: if_splits)
next
  case (AtTest src)
  with signalled_count [OF assms, of ex src] show ?thesis
    by (auto simp: arrive_def split: if_splits)
qed

lemma deliver_count:
  "handlers w SIGALRM \<noteq> Cb_term_handler \<Longrightarrow>
   count_list (events (snd (deliver ex as w))) CallExit
     \<le> count_list (events w) CallExit + length (filter is_sigterm as)
   \<and> handlers (snd (deliver ex as w)) SIGALRM \<noteq> Cb_term_handler"
proof (induction as arbitrary: w)
  case Nil
  then show ?case by simp
next
  case (Cons a as)
  obtain r w1 where a: "arrive ex a w = (r, w1)" by (cases "arrive ex a w")
  from arrive_count [OF Cons.prems, of ex a] a
  have c: "count_list (events w1) CallExit \<le> count_list (events w) CallExit + length (filter is_sigterm [a])"
    and h: "handlers w1 SIGALRM \<noteq> Cb_term_handler" by simp_all
  show ?case
  proof (cases r)
    case (Inl x)
    with a c h show ?thesis by (auto simp: then_do_def)
  next
    case (Inr u)
    with a c h Cons.IH [OF h] show ?thesis by (auto simp: then_do_def)
  qed
qed

lemma call_run_count:
  assumes "handlers w SIGALRM \<noteq> Cb_term_handler"
  shows "count_list (events (snd (call_run ex it w))) CallExit
           \<le> count_list (events w) CallExit + length (filter is_sigterm (filter in_run (arrivals it)))
         \<and> handlers (snd (call_run ex it w)) SIGALRM \<noteq> Cb_term_handler"
proof -
  have "handlers (emit CallRun w) SIGALRM \<noteq> Cb_term_handler" using assms by (simp add: emit_def)
  from deliver_count [OF this, of ex "filter in_run (arrivals it)"] show ?thesis
    by (simp add: snd_call_run emit_def)
qed

lemma sigterm_places:
  "length (filter is_sigterm (filter at_test as)) + length (filter is_sigterm (filter in_run as))
     = length (filter is_sigterm as)"
proof (induction as)
  case Nil
  show ?case by simp
next
  case (Cons a as)
  then show ?case by (cases a) simp_all
qed

lemma sigterms_Cons:
  "sigterms (it # its) = length (filter is_sigterm (arrivals it)) + sigterms its"
  by (simp add: sigterms_def)

lemma count_list_app: "count_list (xs @ ys) x = count_list xs x + count_list ys x"
  by (induction xs) auto

lemma run_loop_count:
  "handlers w SIGALRM \<noteq> Cb_term_handler \<Longrightarrow>
   count_list (events (snd (run_loop ex its w))) CallExit \<le> count_list (events w) CallExit + sigterms its"
proof (induction its arbitrary: w)
  case Nil
  then show ?case by simp
next
  case (Cons it its)
  obtain r0 w0 where d: "deliver ex (filter at_test (arrivals it)) w = (r0, w0)"
    by (cases "deliver ex (filter at_test (arrivals it)) w")
  from deliver_count [OF Cons.prems, of ex "filter at_test (arrivals it)"] d
  have n0: "count_list (events w0) CallExit
             \<le> count_list (events w) CallExit + length (filter is_sigterm (filter at_test (arrivals it)))"
    and h0: "handlers w0 SIGALRM \<noteq> Cb_term_handler" by simp_all
  obtain r w1 where c: "call_run ex it w0 = (r, w1)" by (cases "call_run ex it w0")
  from call_run_count [OF h0, of ex it] c
  have n1: "count_list (events w1) CallExit
             \<le> count_list (events w0) CallExit + length (filter is_sigterm (filter in_run (arrivals it)))"
    and h: "handlers w1 SIGALRM \<noteq> Cb_term_handler" by simp_all
  from n0 n1 sigterm_places [of "arrivals it"]
  have n: "count_list (events w1) CallExit
             \<le> count_list (events w) CallExit + length (filter is_sigterm (arrivals it))"
    by linarith
  from n0 sigterm_places [of "arrivals it"]
  have j0: "count_list (events w0) CallExit \<le> count_list (events w) CallExit + sigterms (it # its)"
    by (simp add: sigterms_Cons)
  have i1: "count_list (events (snd (run_loop ex its w1))) CallExit
              \<le> count_list (events w1) CallExit + sigterms its"
    by (rule Cons.IH [OF h])
  have "handlers (logger_exception x w1) SIGALRM \<noteq> Cb_term_handler" for x
    using h by (simp add: logger_exception_def emit_def)
  from Cons.IH [OF this]
  have i2: "count_list (events (snd (run_loop ex its (logger_exception x w1)))) CallExit
              \<le> count_list (events w1) CallExit + sigterms its" for x
    by (simp add: logger_exception_def emit_def count_list_app)
  have j1: "count_list (events (snd (run_loop ex its w1))) CallExit
              \<le> count_list (events w) CallExit + sigterms (it # its)"
    using n i1 by (simp add: sigterms_Cons)
  have j2: "count_list (events (snd (run_loop ex its (logger_exception x w1)))) CallExit
              \<le> count_list (events w) CallExit + sigterms (it # its)" for x
    using n i2 [of x] by (simp add: sigterms_Cons)
  have j3: "count_list (events w1) CallExit \<le> count_list (events w) CallExit + sigterms (it # its)"
    using n by (simp add: sigterms_Cons)
  show ?case
    using d c j0 j1 j2 j3 by (auto split: result_splits)
qed

lemma main_loop_count:
  assumes "handlers w SIGALRM \<noteq> Cb_term_handler"
  shows "count_list (events (snd (main_loop cfg ex its w))) CallExit
           \<le> count_list (events w) CallExit + sigterms its"
proof -
  obtain es where es: "events (snd (main_loop cfg ex its w)) = events (snd (run_loop ex its w)) @ es"
      "set es \<subseteq> {FileRemove (pid_file cfg), Log INFO ''Exiting.''}"
    using main_loop_tail by blast
  then have "CallExit \<notin> set es" by auto
  then have "count_list es CallExit = 0" by simp
  with es(1) run_loop_count [OF assms, of ex its] show ?thesis by (simp add: count_list_app)
qed


lemma create_pid_file_fail: "create_pid_file cfg w = (Inl a, v) \<Longrightarrow> grows w v"
  using write_file_cases [of "pid_file cfg" "str_int (pid w)" w]
  by (auto simp: create_pid_file_def sys_exit_def logger_def logger_exception_def
      emit_def grows_def)

lemma prologue_other:
  assumes "start_prologue cfg w = (r, w')" and "r \<noteq> Ret False"
  shows "grows w w'"
proof -
  obtain r0 w0 where a: "already_running cfg w = (r0, w0)" by (cases "already_running cfg w")
  have g0: "grows w w0" using already_running_grows [of w cfg] a by simp
  show ?thesis
  proof (cases "r0 = Ret False")
    case False
    with assms a g0 show ?thesis
      by (cases r0) (auto simp: start_prologue_def then_do_def split: if_splits)
  next
    case True
    obtain r1 w1 where b: "change_uid cfg w0 = (r1, w1)" by (cases "change_uid cfg w0")
    have g1: "grows w w1" using change_uid_grows [of w0 cfg] b g0 grows_trans by fastforce
    show ?thesis
    proof (cases r1)
      case (Inl x)
      with assms a True b g1 show ?thesis by (auto simp: start_prologue_def then_do_def)
    next
      case (Inr u1)
      obtain r2 w2 where c: "become_daemon (workdir cfg) (stdout cfg) (stderr cfg) (umask cfg) w1 = (r2, w2)"
        by (cases "become_daemon (workdir cfg) (stdout cfg) (stderr cfg) (umask cfg) w1")
      have g2: "grows w w2"
        using become_daemon_grows [of w1 "workdir cfg" "stdout cfg" "stderr cfg" "umask cfg"] c g1
          grows_trans by fastforce
      show ?thesis
      proof (cases r2)
        case (Inl x)
        with assms a True b Inr c g2 show ?thesis by (auto simp: start_prologue_def then_do_def)
      next
        case (Inr u2)
        obtain r3 w3 where d: "create_pid_file cfg w2 = (r3, w3)" by (cases "create_pid_file cfg w2")
        show ?thesis
        proof (cases r3)
          case (Inl x)
          with d have "grows w2 w3" using create_pid_file_fail by blast
          with g2 have "grows w w3" by (rule grows_trans)
          with assms a True b \<open>r1 = Inr u1\<close> c Inr d Inl show ?thesis
            by (auto simp: start_prologue_def then_do_def)
        next
          case (Inr u3)
          with assms a True b \<open>r1 = Inr u1\<close> c \<open>r2 = Inr u2\<close> d show ?thesis
            by (auto simp: start_prologue_def then_do_def)
        qed
      qed
    qed
  qed
qed

lemma quiet_set: "list_all quiet_event es \<Longrightarrow> CallExit \<notin> set es \<and> SetRunning False \<notin> set es"
  by (auto simp: list_all_iff)

lemma prologue_all:
  assumes "start_prologue cfg w = (r, w')"
  shows "\<exists>es. events w' = events w @ es \<and> CallExit \<notin> set es \<and> SetRunning False \<notin> set es
              \<and> handlers w' SIGALRM = handlers w SIGALRM"
proof (cases "r = Ret False")
  case False
  with assms have "grows w w'" by (rule prologue_other)
  then show ?thesis unfolding grows_def using quiet_set by auto
next
  case True
  with assms obtain w1 w2 where
        b: "change_uid cfg w = (Ret (), w1)"
    and c: "become_daemon (workdir cfg) (stdout cfg) (stderr cfg) (umask cfg) w1 = (Ret (), w2)"
    and e: "w' = install_handler (w2\<lparr>fs := (fs w2)(pid_file cfg \<mapsto> Regular (str_int (pid w2))),
         events := events w2 @ [FileWrite (pid_file cfg) (str_int (pid w2))]\<rparr>)"
    by (auto elim: start_prologue_False)
  have "grows w w1" using change_uid_grows [of w cfg] b by simp
  moreover have "grows w1 w2"
    using become_daemon_grows [of w1 "workdir cfg" "stdout cfg" "stderr cfg" "umask cfg"] c by simp
  ultimately have "grows w w2" by (rule grows_trans)
  then obtain es where es: "events w2 = events w @ es" "list_all quiet_event es"
    and h: "handlers w2 = handlers w"
    unfolding grows_def by blast
  let ?tail = "[FileWrite (pid_file cfg) (str_int (pid w2)), SetRunning True,
               SignalInstall SIGTERM Cb_term_handler, Log INFO ''Starting'']"
  have "events w' = events w @ (es @ ?tail)"
    by (simp add: e es install_handler_def logger_def signal_signal_def emit_def)
  moreover have "CallExit \<notin> set (es @ ?tail)" "SetRunning False \<notin> set (es @ ?tail)"
    using quiet_set [OF es(2)] by auto
  moreover have "handlers w' SIGALRM = handlers w SIGALRM"
    by (simp add: e h install_handler_def logger_def signal_signal_def emit_def)
  ultimately show ?thesis by blast
qed

lemma added_start: "added w (snd (start cfg ex its w)) = events (snd (start cfg ex its (fresh w)))"
  by (simp add: start_events [of cfg ex its w] added_def lift_def shift_def)

lemma start_fresh_cases:
  obtains a v where "start_prologue cfg (fresh w) = (Inl a, v)" "start cfg ex its (fresh w) = (Inl a, v)"
  | v where "start_prologue cfg (fresh w) = (Ret True, v)" "start cfg ex its (fresh w) = (Ret (), v)"
  | v where "start_prologue cfg (fresh w) = (Ret False, v)"
      "start cfg ex its (fresh w) = main_loop cfg ex its v"
proof (cases "start_prologue cfg (fresh w)")
  case (Pair r v)
  show ?thesis
  proof (cases r)
    case (Inl a)
    with Pair that(1) show ?thesis by (simp add: start_def then_do_def)
  next
    case (Inr live)
    with Pair that(2,3) show ?thesis by (cases live) (simp_all add: start_def then_do_def)
  qed
qed

lemma step_survives:
  assumes "running w" "arrivals it = []" "survives (run_does it)"
  shows "\<exists>w1. run_loop ex (it # its) w = run_loop ex its w1 \<and> running w1
            \<and> count_list (events w1) CallRun = count_list (events w) CallRun + 1"
proof (cases "run_does it")
  case (Inr u)
  with assms have "run_loop ex (it # its) w = run_loop ex its (w\<lparr>events := events w @ [CallRun]\<rparr>)"
    by (intro step_returns) simp_all
  moreover have "running (w\<lparr>events := events w @ [CallRun]\<rparr>)" using assms by simp
  moreover have "count_list (events (w\<lparr>events := events w @ [CallRun]\<rparr>)) CallRun
                   = count_list (events w) CallRun + 1" by (simp add: count_list_app)
  ultimately show ?thesis by blast
next
  case (Inl a)
  with assms obtain x where x: "run_does it = Raise x" "is_Exception x"
    by (cases a) auto
  with assms have "run_loop ex (it # its) w
                     = run_loop ex its (w\<lparr>events := events w @ [CallRun, LogException x]\<rparr>)"
    by (intro step_raises) simp_all
  moreover have "running (w\<lparr>events := events w @ [CallRun, LogException x]\<rparr>)" using assms by simp
  moreover have "count_list (events (w\<lparr>events := events w @ [CallRun, LogException x]\<rparr>)) CallRun
                   = count_list (events w) CallRun + 1" by (simp add: count_list_app)
  ultimately show ?thesis by blast
qed

section \<open>The verbs against the specification\<close>

subsection \<open>The termination handler\<close>

text \<open>
  C1 as the specification has it: the handler of the termination signal invokes
  the \<^verbatim>\<open>exit\<close> callback, sets the flag that stops the loop and arms an alarm of 5
  seconds whose expiry forces the process to end with a non-zero status. The
  flag and the alarm come after \<^verbatim>\<open>exit()\<close>: when \<^verbatim>\<open>exit()\<close> raises, the
  exception is logged by the loop, the cell still holds \<^verbatim>\<open>True\<close>, no alarm is
  armed and the daemon goes on; when \<^verbatim>\<open>exit()\<close> does not return, nothing ends the
  process. And the alarm ends the process by an exception: a \<^verbatim>\<open>run()\<close> that
  catches it and goes on is not ended.
\<close>

theorem term_handler_cut_short_counterexample:
  "main_loop demo_cfg (Some (Raise (AppError ''boom'')))
      [\<lparr>arrivals = [Signal SIGTERM], run_does = Ret ()\<rparr>,
       \<lparr>arrivals = [Expiry], run_does = Ret ()\<rparr>] daemon_host
     = (Inl Pending,
        daemon_host\<lparr>events := [CallRun, Log DEBUG ''Calling exit handler'', CallExit,
                                 LogException (AppError ''boom''), CallRun]\<rparr>)
   \<and> main_loop demo_cfg (Some (Inl Pending))
        [\<lparr>arrivals = [Signal SIGTERM, Expiry], run_does = Ret ()\<rparr>] daemon_host
       = (Inl Pending,
          daemon_host\<lparr>events := [CallRun, Log DEBUG ''Calling exit handler'', CallExit]\<rparr>)
   \<and> running daemon_host \<and> alarm daemon_host = None
   \<and> exit_status (fst (main_loop demo_cfg (Some (Inl Pending))
        [\<lparr>arrivals = [Signal SIGTERM, Expiry], run_does = Ret ()\<rparr>] daemon_host)) = None
   \<and> exit_status (fst (main_loop demo_cfg None
        [\<lparr>arrivals = [Signal SIGTERM, Caught Timer], run_does = Inl Pending\<rparr>] daemon_host)) = None"
  by (simp add: host_defs file_defs io_defs proc_defs initd_defs)

text \<open>
  C1, amended. The handler of the termination signal invokes the \<^verbatim>\<open>exit\<close>
  callback if one was given, and waits for it. Once \<^verbatim>\<open>exit()\<close> has returned, or
  when none was given, it stores \<^verbatim>\<open>False\<close> in the cell that the loop reads,
  installs the alarm handler and arms an alarm of 5 seconds, in this order. An
  \<^verbatim>\<open>exit()\<close> that raises or does not return ends the handler at the first step:
  the cell is not cleared and no alarm is armed. The alarm handler raises
  \<^verbatim>\<open>SystemExit(1)\<close>. When the armed alarm goes off while the loop is inside
  \<^verbatim>\<open>run()\<close>, at a point where \<^verbatim>\<open>run()\<close> lets the exception pass, the process ends
  with status 1; inside a \<^verbatim>\<open>try\<close> block of \<^verbatim>\<open>run()\<close> that catches it the exception
  ends there; and with no alarm armed nothing goes off.
\<close>

theorem term_handler_sequence:
  "cb_term_handler None w =
     (Ret (), w\<lparr>handlers := (handlers w)(SIGALRM := Cb_alrm_handler),
                alarm := Some 5, running := False,
                events := events w @
                  [SetRunning False, SignalInstall SIGALRM Cb_alrm_handler, Alarm 5]\<rparr>)
   \<and> cb_term_handler (Some (Ret ())) v =
       (Ret (), v\<lparr>handlers := (handlers v)(SIGALRM := Cb_alrm_handler),
                  alarm := Some 5, running := False,
                  events := events v @
                    [Log DEBUG ''Calling exit handler'', CallExit,
                     SetRunning False, SignalInstall SIGALRM Cb_alrm_handler, Alarm 5]\<rparr>)
   \<and> cb_term_handler (Some (Inl a)) u =
       (Inl a, u\<lparr>events := events u @ [Log DEBUG ''Calling exit handler'', CallExit]\<rparr>)
   \<and> cb_alrm_handler w =
       (Raise (SystemExit 1),
        w\<lparr>events := events w @
             [Log WARNING ''Could not exit gracefully.  Forcefully exiting.'']\<rparr>)
   \<and> ((exit = None \<or> exit = Some (Ret ())) \<and> running w' \<and> handlers w' SIGTERM = Cb_term_handler
       \<and> filter at_test later = [] \<longrightarrow>
        exit_status (fst (main_loop cfg exit
          (\<lparr>arrivals = Signal SIGTERM # Expiry # later, run_does = r\<rparr> # its) w')) = Some 1)
   \<and> (signalled exit' src w2 = (Raise e, w3) \<longrightarrow> arrive exit' (Caught src) w2 = (Ret (), w3))
   \<and> (alarm w4 = None \<longrightarrow> arrive exit'' Expiry w4 = (Ret (), w4))"
proof -
  have n: "cb_term_handler None w =
     (Ret (), w\<lparr>handlers := (handlers w)(SIGALRM := Cb_alrm_handler),
                alarm := Some 5, running := False,
                events := events w @
                  [SetRunning False, SignalInstall SIGALRM Cb_alrm_handler, Alarm 5]\<rparr>)" for w
    by (simp add: cb_term_handler_def then_do_def emit_def signal_signal_def signal_alarm_def)
  have h: "cb_term_handler (Some (Ret ())) v =
       (Ret (), v\<lparr>handlers := (handlers v)(SIGALRM := Cb_alrm_handler),
                  alarm := Some 5, running := False,
                  events := events v @
                    [Log DEBUG ''Calling exit handler'', CallExit,
                     SetRunning False, SignalInstall SIGALRM Cb_alrm_handler, Alarm 5]\<rparr>)" for v
    by (simp add: cb_term_handler_def call_exit_def then_do_def logger_def emit_def
        signal_signal_def signal_alarm_def)
  have f: "cb_term_handler (Some (Inl a)) u =
       (Inl a, u\<lparr>events := events u @ [Log DEBUG ''Calling exit handler'', CallExit]\<rparr>)"
    by (simp add: cb_term_handler_def call_exit_def then_do_def logger_def emit_def)
  have a: "cb_alrm_handler w =
           (Raise (SystemExit 1),
            w\<lparr>events := events w @
                 [Log WARNING ''Could not exit gracefully.  Forcefully exiting.'']\<rparr>)" for w
    by (simp add: cb_alrm_handler_def sys_exit_def logger_def emit_def)
  have l: "exit_status (fst (main_loop cfg exit
              (\<lparr>arrivals = Signal SIGTERM # Expiry # later, run_does = r\<rparr> # its) w')) = Some 1"
    if t: "exit = None \<or> exit = Some (Ret ())" "running w'" "handlers w' SIGTERM = Cb_term_handler"
      "filter at_test later = []"
  proof -
    have "\<exists>w1. deliver exit (Signal SIGTERM # Expiry # filter in_run later) (emit CallRun w')
            = (Raise (SystemExit 1), w1)"
      using t(1,3)
      by (auto simp: arrive_def signalled_def dispatch_def n h a then_do_def emit_def)
    then obtain w1 where "call_run exit \<lparr>arrivals = Signal SIGTERM # Expiry # later, run_does = r\<rparr> w'
            = (Raise (SystemExit 1), w1)"
      by (auto simp: call_run_def then_do_def)
    with t(2,4) have "run_loop exit (\<lparr>arrivals = Signal SIGTERM # Expiry # later, run_does = r\<rparr> # its) w'
            = (Raise (SystemExit 1), w1)"
      by simp
    then show ?thesis
      by (cases "os_remove (pid_file cfg) w1")
         (auto simp: main_loop_def then_do_def os_remove_def split: option.splits node.splits)
  qed
  have c: "arrive exit' (Caught src) w2 = (Ret (), w3)" if "signalled exit' src w2 = (Raise e, w3)"
    using that by (simp add: arrive_def)
  have q: "arrive exit'' Expiry w4 = (Ret (), w4)" if "alarm w4 = None"
    using that by (simp add: arrive_def signalled_def)
  from n h f a l c q show ?thesis by blast
qed

text \<open>
  The daemon of the demonstration: its handler with a callback that returns, the
  termination signal followed by the alarm while its \<^verbatim>\<open>run()\<close> hangs, the alarm
  caught inside \<^verbatim>\<open>run()\<close>, and the alarm that was never armed.
\<close>

theorem term_handler_sequence_witness:
  "cb_term_handler (Some (Ret ())) daemon_host =
     (Ret (), daemon_host\<lparr>handlers := (handlers daemon_host)(SIGALRM := Cb_alrm_handler),
                alarm := Some 5, running := False,
                events := [Log DEBUG ''Calling exit handler'', CallExit,
                           SetRunning False, SignalInstall SIGALRM Cb_alrm_handler, Alarm 5]\<rparr>)
   \<and> cb_alrm_handler daemon_host =
       (Raise (SystemExit 1),
        daemon_host\<lparr>events := [Log WARNING ''Could not exit gracefully.  Forcefully exiting.'']\<rparr>)
   \<and> running daemon_host \<and> handlers daemon_host SIGTERM = Cb_term_handler
   \<and> exit_status (fst (main_loop demo_cfg (Some (Ret ()))
        [\<lparr>arrivals = [Signal SIGTERM, Expiry], run_does = Inl Pending\<rparr>] daemon_host)) = Some 1
   \<and> fst (signalled None Timer armed_host) = Raise (SystemExit 1)
   \<and> arrive None (Caught Timer) armed_host = (Ret (), snd (signalled None Timer armed_host))
   \<and> alarm daemon_host = None
   \<and> arrive None Expiry daemon_host = (Ret (), daemon_host)"
proof -
  have a: "running daemon_host" "handlers daemon_host SIGTERM = Cb_term_handler"
    "events daemon_host = []" "alarm daemon_host = None"
    by (simp_all add: host_defs)
  obtain w3 where b: "signalled None Timer armed_host = (Raise (SystemExit 1), w3)"
    by (simp add: host_defs io_defs proc_defs initd_defs)
  from term_handler_sequence [of daemon_host daemon_host Pending daemon_host "Some (Ret ())"
      daemon_host "[]" demo_cfg "Inl Pending" "[]" None Timer armed_host "SystemExit 1" w3
      daemon_host None] a b
  show ?thesis by simp
qed

subsection \<open>\<^verbatim>\<open>start\<close> against a live instance\<close>

text \<open>
  C2. When the pid file exists and names a pid that answers the probe with signal 0,
  \<^verbatim>\<open>start\<close> logs a warning and returns. Apart from the probe and the log line the
  state is the one it began with: nothing forked, no identity changed, the pid
  file untouched, no handler installed, the loop never entered.
\<close>

theorem start_noop_when_live:
  assumes "os_path_exists w (pid_file cfg)"
      and "fst (read_pid cfg w) = Ret p"
      and "fst (os_kill p None w) = Ret ()"
  shows "start cfg exit its w =
           (Ret (), w\<lparr>events := events w @ [Kill p None, Log WARNING ''Daemon already running.'']\<rparr>)"
proof -
  from assms(2) have r: "read_pid cfg w = (Ret p, w)"
    by (auto simp: read_pid_def read_file_def then_do_def split: option.splits node.splits)
  from assms(3) have k: "os_kill p None w = (Ret (), emit (Kill p None) w)"
    by (auto simp: os_kill_def split: if_splits option.splits)
  show ?thesis
    by (simp add: start_def start_prologue_def already_running_def assms(1) r k then_do_def
        logger_def emit_def)
qed

text \<open>The host whose pid file names the live process 4242.\<close>

theorem start_noop_when_live_witness:
  "os_path_exists live_host (pid_file demo_cfg)
   \<and> fst (read_pid demo_cfg live_host) = Ret 4242
   \<and> fst (os_kill 4242 None live_host) = Ret ()
   \<and> start demo_cfg None [calm] live_host =
       (Ret (), live_host\<lparr>events := [Kill 4242 None, Log WARNING ''Daemon already running.'']\<rparr>)"
proof -
  have a: "os_path_exists live_host (pid_file demo_cfg)"
    by (simp add: host_defs file_defs)
  have b: "fst (read_pid demo_cfg live_host) = Ret 4242"
    by (simp add: host_defs file_defs read_pid_def then_do_def text_defs)
  have c: "fst (os_kill 4242 None live_host) = Ret ()"
    by (simp add: host_defs os_kill_def)
  have "events live_host = []" by (simp add: host_defs)
  with start_noop_when_live [OF a b c, of None "[calm]"] a b c show ?thesis by simp
qed

subsection \<open>\<^verbatim>\<open>stop\<close>\<close>

text \<open>
  C6 as the specification has it: when the pid file exists and the termination
  signal cannot be delivered, \<^verbatim>\<open>stop\<close> logs a warning, removes the pid file and
  returns without an error. The removal of line 206 is unguarded. When the file
  is deleted between the reading of line 194 and the removal, \<^verbatim>\<open>stop\<close> ends with
  the \<^verbatim>\<open>OSError\<close> of \<^verbatim>\<open>os.remove\<close>; when it can be read and not removed, likewise,
  and the file stays.
\<close>

theorem stop_remove_fails_counterexample:
  "os_path_exists stale_host (pid_file demo_cfg)
   \<and> fst (read_pid demo_cfg stale_host) = Ret 4242
   \<and> fst (os_kill 4242 (Some SIGTERM) stale_host) = Raise (OSError ESRCH)
   \<and> fst (stop demo_cfg [[EnvRemove ''/run/d.pid'']] stale_host) = Raise (OSError ENOENT)
   \<and> os_path_exists foreign_host (pid_file demo_cfg)
   \<and> fst (read_pid demo_cfg foreign_host) = Ret 4242
   \<and> fst (os_kill 4242 (Some SIGTERM) foreign_host) = Raise (OSError ESRCH)
   \<and> fst (stop demo_cfg [] foreign_host) = Raise (OSError EACCES)
   \<and> node_at (snd (stop demo_cfg [] foreign_host)) (pid_file demo_cfg) = Some (ReadOnly ''4242'')"
  by (simp add: host_defs file_defs io_defs proc_defs initd_defs text_defs)

text \<open>
  C6, amended. When the pid file holds a pid and the termination signal cannot be
  delivered to it (\<^verbatim>\<open>os.kill\<close> raises \<^verbatim>\<open>OSError\<close>), \<^verbatim>\<open>stop\<close> prints \<^verbatim>\<open>Stopping.\<close>, logs
  a warning and ends as \<^verbatim>\<open>os.remove\<close> of the pid file does: if the file is still
  there and can be removed, it is removed and \<^verbatim>\<open>stop\<close> returns; if it has gone in
  the meantime, or may not be removed, the \<^verbatim>\<open>OSError\<close> of \<^verbatim>\<open>os.remove\<close> leaves
  \<^verbatim>\<open>stop\<close>.
\<close>

theorem stop_cleans_stale_pid_file:
  assumes "fst (read_pid cfg w) = Ret p"
      and "fst (os_kill p (Some SIGTERM) w) = Raise (OSError e)"
  shows "stop cfg ticks w = os_remove (pid_file cfg) (before_remove cfg ticks e w)
       \<and> events (before_remove cfg ticks e w) =
           events w @ [Stdout ''Stopping.'', StdoutFlush,
                       Log WARNING (''Could not kill process: '' @ os_error_str e)]
       \<and> (node_at (before_remove cfg ticks e w) (pid_file cfg) = Some (Regular t) \<longrightarrow>
            stop cfg ticks w =
              (Ret (), (before_remove cfg ticks e w)
                 \<lparr>fs := (fs (before_remove cfg ticks e w))(pid_file cfg := None),
                  events := events w @
                    [Stdout ''Stopping.'', StdoutFlush,
                     Log WARNING (''Could not kill process: '' @ os_error_str e),
                     FileRemove (pid_file cfg)]\<rparr>))
       \<and> (node_at (before_remove cfg ticks e w) (pid_file cfg) = None \<longrightarrow>
            stop cfg ticks w = (Raise (OSError ENOENT), before_remove cfg ticks e w))
       \<and> (node_at (before_remove cfg ticks e w) (pid_file cfg) = Some (ReadOnly t') \<longrightarrow>
            stop cfg ticks w = (Raise (OSError EACCES), before_remove cfg ticks e w))"
proof -
  let ?w0 = "meanwhile ticks (stdout_flush (stdout_write ''Stopping.'' w))"
  from assms(1) have r: "read_pid cfg w = (Ret p, w)"
    using snd_read_pid [of cfg w] by (cases "read_pid cfg w") simp
  from assms(2) have k: "kill_errno w p = Some e" "\<not> (p < - (2 ^ 31) \<or> 2 ^ 31 \<le> p)"
    by (auto simp: os_kill_def split: if_splits option.splits)
  have m: "kill_errno ?w0 = kill_errno w" "events ?w0 = events w @ [Stdout ''Stopping.'', StdoutFlush]"
    by (simp_all add: meanwhile_proc stdout_write_def stdout_flush_def emit_def)
  have "os_kill p (Some SIGTERM) ?w0 = (Raise (OSError e), ?w0)"
    using k m(1) by (simp add: os_kill_def)
  then have s: "stop cfg ticks w = os_remove (pid_file cfg) (before_remove cfg ticks e w)"
    by (simp add: stop_def r before_remove_def)
  have ev: "events (before_remove cfg ticks e w) =
           events w @ [Stdout ''Stopping.'', StdoutFlush,
                       Log WARNING (''Could not kill process: '' @ os_error_str e)]"
    using m(2) by (simp add: before_remove_def logger_def emit_def)
  have a: "stop cfg ticks w =
              (Ret (), (before_remove cfg ticks e w)
                 \<lparr>fs := (fs (before_remove cfg ticks e w))(pid_file cfg := None),
                  events := events w @
                    [Stdout ''Stopping.'', StdoutFlush,
                     Log WARNING (''Could not kill process: '' @ os_error_str e),
                     FileRemove (pid_file cfg)]\<rparr>)"
    if "node_at (before_remove cfg ticks e w) (pid_file cfg) = Some (Regular t)"
    using that ev by (simp add: s os_remove_def emit_def)
  have b: "stop cfg ticks w = (Raise (OSError ENOENT), before_remove cfg ticks e w)"
    if "node_at (before_remove cfg ticks e w) (pid_file cfg) = None"
    using that by (simp add: s os_remove_def)
  have c: "stop cfg ticks w = (Raise (OSError EACCES), before_remove cfg ticks e w)"
    if "node_at (before_remove cfg ticks e w) (pid_file cfg) = Some (ReadOnly t')"
    using that by (simp add: s os_remove_def)
  from s ev a b c show ?thesis by blast
qed

text \<open>
  The host whose pid file names process 4242, which is gone: left alone, with the
  file deleted in the meantime, and with a file that may not be removed.
\<close>

theorem stop_cleans_stale_pid_file_witness:
  "fst (read_pid demo_cfg stale_host) = Ret 4242
   \<and> fst (os_kill 4242 (Some SIGTERM) stale_host) = Raise (OSError ESRCH)
   \<and> node_at (before_remove demo_cfg [] ESRCH stale_host) ''/run/d.pid'' = Some (Regular ''4242'')
   \<and> stop demo_cfg [] stale_host =
       (Ret (), stale_host\<lparr>fs := (fs stale_host)(''/run/d.pid'' := None),
                  events := [Stdout ''Stopping.'', StdoutFlush,
                             Log WARNING ''Could not kill process: [Errno 3] No such process'',
                             FileRemove ''/run/d.pid'']\<rparr>)
   \<and> node_at (before_remove demo_cfg [[EnvRemove ''/run/d.pid'']] ESRCH stale_host) ''/run/d.pid'' = None
   \<and> fst (stop demo_cfg [[EnvRemove ''/run/d.pid'']] stale_host) = Raise (OSError ENOENT)
   \<and> fst (read_pid demo_cfg foreign_host) = Ret 4242
   \<and> fst (os_kill 4242 (Some SIGTERM) foreign_host) = Raise (OSError ESRCH)
   \<and> node_at (before_remove demo_cfg [] ESRCH foreign_host) ''/run/d.pid'' = Some (ReadOnly ''4242'')
   \<and> fst (stop demo_cfg [] foreign_host) = Raise (OSError EACCES)"
proof -
  have b: "fst (read_pid demo_cfg stale_host) = Ret 4242"
    "fst (read_pid demo_cfg foreign_host) = Ret 4242"
    by (simp_all add: host_defs file_defs read_pid_def then_do_def text_defs)
  have c: "fst (os_kill 4242 (Some SIGTERM) stale_host) = Raise (OSError ESRCH)"
    "fst (os_kill 4242 (Some SIGTERM) foreign_host) = Raise (OSError ESRCH)"
    by (simp_all add: host_defs os_kill_def)
  have d: "events stale_host = []" "pid_file demo_cfg = ''/run/d.pid''"
    by (simp_all add: host_defs)
  have e: "os_error_str ESRCH = ''[Errno 3] No such process''"
    by code_simp
  have n1: "node_at (before_remove demo_cfg [] ESRCH stale_host) ''/run/d.pid'' = Some (Regular ''4242'')"
    and f1: "fs (before_remove demo_cfg [] ESRCH stale_host) = fs stale_host"
    and g1: "before_remove demo_cfg [] ESRCH stale_host
              = stale_host\<lparr>events := [Stdout ''Stopping.'', StdoutFlush,
                   Log WARNING (''Could not kill process: '' @ os_error_str ESRCH)]\<rparr>"
    by (simp_all add: before_remove_def meanwhile_def host_defs file_defs io_defs)
  have n2: "node_at (before_remove demo_cfg [[EnvRemove ''/run/d.pid'']] ESRCH stale_host) ''/run/d.pid'' = None"
    by (simp add: before_remove_def meanwhile_def host_defs file_defs io_defs)
  have n3: "node_at (before_remove demo_cfg [] ESRCH foreign_host) ''/run/d.pid'' = Some (ReadOnly ''4242'')"
    by (simp add: before_remove_def meanwhile_def host_defs file_defs io_defs)
  note t1 = stop_cleans_stale_pid_file [OF b(1) c(1), of "[]" "''4242''" "[]"]
  note t2 = stop_cleans_stale_pid_file [OF b(1) c(1), of "[[EnvRemove ''/run/d.pid'']]" "[]" "[]"]
  note t3 = stop_cleans_stale_pid_file [OF b(2) c(2), of "[]" "[]" "''4242''"]
  from n1 d(2) have "node_at (before_remove demo_cfg [] ESRCH stale_host) (pid_file demo_cfg)
      = Some (Regular ''4242'')" by simp
  from t1 [THEN conjunct2, THEN conjunct2, THEN conjunct1, rule_format, OF this]
  have s1: "stop demo_cfg [] stale_host =
       (Ret (), stale_host\<lparr>fs := (fs stale_host)(''/run/d.pid'' := None),
                  events := [Stdout ''Stopping.'', StdoutFlush,
                             Log WARNING ''Could not kill process: [Errno 3] No such process'',
                             FileRemove ''/run/d.pid'']\<rparr>)"
    by (simp add: g1 d e)
  from n2 d(2) have "node_at (before_remove demo_cfg [[EnvRemove ''/run/d.pid'']] ESRCH stale_host)
      (pid_file demo_cfg) = None" by simp
  from t2 [THEN conjunct2, THEN conjunct2, THEN conjunct2, THEN conjunct1, rule_format, OF this]
  have s2: "fst (stop demo_cfg [[EnvRemove ''/run/d.pid'']] stale_host) = Raise (OSError ENOENT)"
    by simp
  from n3 d(2) have "node_at (before_remove demo_cfg [] ESRCH foreign_host) (pid_file demo_cfg)
      = Some (ReadOnly ''4242'')" by simp
  from t3 [THEN conjunct2, THEN conjunct2, THEN conjunct2, THEN conjunct2, rule_format, OF this]
  have s3: "fst (stop demo_cfg [] foreign_host) = Raise (OSError EACCES)"
    by simp
  from b c n1 n2 n3 s1 s2 s3 show ?thesis by simp
qed

text \<open>
  C7 as the specification has it: when the pid file does not exist, \<^verbatim>\<open>stop\<close>
  prints \<^verbatim>\<open>Stopped.\<close> and returns. The code looks at the error of \<^verbatim>\<open>open\<close>, and only
  \<^verbatim>\<open>ENOENT\<close> is taken for a missing file: a pid file named below a file does not
  exist, and \<^verbatim>\<open>stop\<close> ends with the \<^verbatim>\<open>ENOTDIR\<close> of \<^verbatim>\<open>open\<close>, having printed nothing.
\<close>

theorem stop_unreachable_pid_file_counterexample:
  "\<not> os_path_exists fresh_host (pid_file odd_cfg)
   \<and> stop odd_cfg [] fresh_host = (Raise (OSError ENOTDIR), fresh_host)"
  by (simp add: host_defs file_defs io_defs initd_defs)

text \<open>
  C7, amended. When there is no file at the path of the pid file and the
  directories on the way are there (\<^verbatim>\<open>open\<close> fails with \<^verbatim>\<open>ENOENT\<close>), \<^verbatim>\<open>stop\<close> prints
  \<^verbatim>\<open>Stopped.\<close> and returns; it sends no signal and changes nothing else. When the
  pid file does not exist for another reason (\<^verbatim>\<open>open\<close> fails with another error:
  a file in the place of a directory, a directory that may not be searched),
  \<^verbatim>\<open>stop\<close> ends with that error and prints nothing. These are all the ways in
  which a pid file does not exist.
\<close>

theorem stop_without_pid_file:
  "(node_at w (pid_file cfg) = None \<longrightarrow>
      stop cfg ticks w =
        (Ret (), w\<lparr>events := events w @ [Stdout (''Stopped.'' @ [CHR 0x0A])]\<rparr>))
   \<and> (node_at v (pid_file cfg') = Some (Barred e) \<longrightarrow>
        e \<noteq> ENOENT \<and> stop cfg' ticks' v = (Raise (OSError e), v))
   \<and> (\<not> os_path_exists u q \<longrightarrow>
        node_at u q = None \<or> (\<exists>e'. node_at u q = Some (Barred e')))"
proof -
  have a: "stop cfg ticks w =
        (Ret (), w\<lparr>events := events w @ [Stdout (''Stopped.'' @ [CHR 0x0A])]\<rparr>)"
    if "node_at w (pid_file cfg) = None"
    using that
    by (simp add: stop_def read_pid_def read_file_def then_do_def stdout_write_def emit_def)
  have b: "e \<noteq> ENOENT \<and> stop cfg' ticks' v = (Raise (OSError e), v)"
    if h: "node_at v (pid_file cfg') = Some (Barred e)"
  proof -
    from h have "e \<noteq> ENOENT"
      by (auto simp: node_at_def lookup_def split: sum.splits if_splits option.splits node.splits)
    with h show ?thesis
      by (simp add: stop_def read_pid_def read_file_def then_do_def)
  qed
  have c: "node_at u q = None \<or> (\<exists>e'. node_at u q = Some (Barred e'))"
    if "\<not> os_path_exists u q"
    using that by (auto simp: os_path_exists_def split: option.splits node.splits)
  from a b c show ?thesis by blast
qed

text \<open>The host without a pid file, and a pid file named below \<^verbatim>\<open>/dev/null\<close>.\<close>

theorem stop_without_pid_file_witness:
  "node_at fresh_host (pid_file demo_cfg) = None
   \<and> stop demo_cfg [] fresh_host =
       (Ret (), fresh_host\<lparr>events := [Stdout (''Stopped.'' @ [CHR 0x0A])]\<rparr>)
   \<and> node_at fresh_host (pid_file odd_cfg) = Some (Barred ENOTDIR)
   \<and> stop odd_cfg [] fresh_host = (Raise (OSError ENOTDIR), fresh_host)
   \<and> \<not> os_path_exists fresh_host (pid_file odd_cfg)"
proof -
  have a: "node_at fresh_host (pid_file demo_cfg) = None"
    "node_at fresh_host (pid_file odd_cfg) = Some (Barred ENOTDIR)"
    "\<not> os_path_exists fresh_host (pid_file odd_cfg)"
    by (simp_all add: host_defs file_defs)
  have "events fresh_host = []" by (simp add: host_defs)
  with stop_without_pid_file [of fresh_host demo_cfg "[]" fresh_host odd_cfg ENOTDIR "[]"
      fresh_host "pid_file odd_cfg"] a
  show ?thesis by simp
qed

subsection \<open>A pid file that holds no number\<close>

text \<open>
  C10. When the pid file exists and its text is not a decimal integer, \<^verbatim>\<open>start\<close>,
  \<^verbatim>\<open>stop\<close> and \<^verbatim>\<open>status\<close> all end with the \<^verbatim>\<open>ValueError\<close> of \<^verbatim>\<open>int()\<close>; none of them
  prints, logs, signals or touches the file.
\<close>

theorem garbled_pid_file_raises:
  assumes "os_path_exists w (pid_file cfg)"
      and "read_file (pid_file cfg) w = (Ret txt, w)"
      and "py_int txt = None"
  shows "start cfg exit its w = (Raise ValueError, w)
       \<and> stop cfg ticks w = (Raise ValueError, w)
       \<and> status cfg w = (Raise ValueError, w)"
  using assms
  by (simp add: start_def start_prologue_def already_running_def stop_def status_def
      read_pid_def then_do_def)

text \<open>The host whose pid file holds \<^verbatim>\<open>4242x\<close>.\<close>

theorem garbled_pid_file_raises_witness:
  "os_path_exists garbled_host (pid_file demo_cfg)
   \<and> read_file (pid_file demo_cfg) garbled_host = (Ret ''4242x'', garbled_host)
   \<and> py_int ''4242x'' = None
   \<and> start demo_cfg None [calm] garbled_host = (Raise ValueError, garbled_host)
   \<and> stop demo_cfg [] garbled_host = (Raise ValueError, garbled_host)
   \<and> status demo_cfg garbled_host = (Raise ValueError, garbled_host)"
proof -
  have a: "os_path_exists garbled_host (pid_file demo_cfg)"
    by (simp add: host_defs file_defs)
  have b: "read_file (pid_file demo_cfg) garbled_host = (Ret ''4242x'', garbled_host)"
    by (simp add: host_defs file_defs)
  have c: "py_int ''4242x'' = None"
    by (simp add: text_defs)
  from garbled_pid_file_raises [OF a b c, of None "[calm]" "[]"] a b c show ?thesis by simp
qed

subsection \<open>Removing the pid file\<close>

text \<open>
  C8 as the specification has it: removing the pid file is idempotent, and the
  removal at the end of the loop completes without raising even when the file
  has already been deleted. The code calls \<^verbatim>\<open>os.remove\<close> unguarded: on the host
  without a pid file it raises, and when the file is deleted under the daemon,
  \<^verbatim>\<open>start\<close> ends with that error.
\<close>

theorem remove_absent_counterexample:
  "fst (os_remove (pid_file demo_cfg) fresh_host) = Raise (OSError ENOENT)
   \<and> fst (main_loop demo_cfg None
        [\<lparr>arrivals = [External (EnvRemove ''/run/d.pid''), Signal SIGTERM], run_does = Ret ()\<rparr>]
        daemon_host) = Raise (OSError ENOENT)"
  by (simp add: host_defs file_defs io_defs proc_defs initd_defs)

text \<open>
  C8, amended. \<^verbatim>\<open>os.remove\<close> deletes a pid file that is there and raises
  \<^verbatim>\<open>OSError\<close> with \<^verbatim>\<open>ENOENT\<close> when there is none. When the loop
  ends, by a return or by an exception, the removal in the \<^verbatim>\<open>finally\<close> block
  completes if the pid file is still there, and \<^verbatim>\<open>Exiting.\<close> is logged; if the file
  has been deleted the error leaves \<^verbatim>\<open>start\<close> and nothing is logged.
\<close>

theorem pid_file_removal:
  "(node_at w p = None \<longrightarrow> os_remove p w = (Raise (OSError ENOENT), w))
   \<and> (node_at v q = Some (Regular t) \<longrightarrow>
        os_remove q v = (Ret (), v\<lparr>fs := (fs v)(q := None), events := events v @ [FileRemove q]\<rparr>))
   \<and> (run_loop exit its w0 = (r, w1) \<and> (r = Ret () \<or> r = Raise e)
       \<and> node_at w1 (pid_file cfg) = Some (Regular t1) \<longrightarrow>
        main_loop cfg exit its w0 =
          (r, w1\<lparr>fs := (fs w1)(pid_file cfg := None),
                  events := events w1 @ [FileRemove (pid_file cfg), Log INFO ''Exiting.'']\<rparr>))
   \<and> (run_loop exit' its' v0 = (r', v1) \<and> (r' = Ret () \<or> r' = Raise e')
       \<and> node_at v1 (pid_file cfg') = None \<longrightarrow>
        main_loop cfg' exit' its' v0 = (Raise (OSError ENOENT), v1))"
  by (auto simp: os_remove_def main_loop_def then_do_def emit_def logger_def)

text \<open>The host without a pid file, and the daemon with and without its pid file at the end.\<close>

theorem pid_file_removal_witness:
  "node_at fresh_host ''/run/d.pid'' = None
   \<and> os_remove ''/run/d.pid'' fresh_host = (Raise (OSError ENOENT), fresh_host)
   \<and> node_at daemon_host ''/run/d.pid'' = Some (Regular ''102'')
   \<and> os_remove ''/run/d.pid'' daemon_host =
       (Ret (), daemon_host\<lparr>fs := (fs daemon_host)(''/run/d.pid'' := None),
                  events := [FileRemove ''/run/d.pid'']\<rparr>)
   \<and> fst (main_loop demo_cfg None [\<lparr>arrivals = [Signal SIGTERM], run_does = Ret ()\<rparr>] daemon_host)
       = Ret ()
   \<and> fst (main_loop demo_cfg None
        [\<lparr>arrivals = [Signal SIGTERM, External (EnvRemove ''/run/d.pid'')], run_does = Ret ()\<rparr>]
        daemon_host) = Raise (OSError ENOENT)"
proof -
  let ?its = "[\<lparr>arrivals = [Signal SIGTERM], run_does = Ret ()\<rparr>]"
  let ?its' = "[\<lparr>arrivals = [Signal SIGTERM, External (EnvRemove ''/run/d.pid'')], run_does = Ret ()\<rparr>]"
  obtain w1 where a: "run_loop None ?its daemon_host = (Ret (), w1)"
    and b: "node_at w1 (pid_file demo_cfg) = Some (Regular ''102'')"
    by (simp add: host_defs file_defs io_defs proc_defs initd_defs)
  obtain v1 where c: "run_loop None ?its' daemon_host = (Ret (), v1)"
    and d: "node_at v1 (pid_file demo_cfg) = None"
    by (simp add: host_defs file_defs io_defs proc_defs initd_defs)
  have e: "node_at fresh_host ''/run/d.pid'' = None"
    "node_at daemon_host ''/run/d.pid'' = Some (Regular ''102'')" "events daemon_host = []"
    by (simp_all add: host_defs file_defs)
  from pid_file_removal [where w = fresh_host and p = "''/run/d.pid''" and v = daemon_host
      and q = "''/run/d.pid''" and t = "''102''" and exit = None and its = ?its
      and ?w0.0 = daemon_host and r = "Ret ()" and ?w1.0 = w1 and cfg = demo_cfg and ?t1.0 = "''102''"
      and exit' = None and its' = ?its' and ?v0.0 = daemon_host and r' = "Ret ()" and ?v1.0 = v1
      and cfg' = demo_cfg] a b c d e
  show ?thesis by simp
qed

subsection \<open>Exceptions of \<^verbatim>\<open>run()\<close>\<close>

text \<open>
  C4 as the specification has it: any exception raised by \<^verbatim>\<open>run()\<close> is caught and
  logged, a \<^verbatim>\<open>run()\<close> that raises on its third invocation is followed by a fourth,
  and only the cell or the alarm ends the loop. The clause is \<^verbatim>\<open>except Exception\<close>:
  a \<^verbatim>\<open>run()\<close> that raises \<^verbatim>\<open>SystemExit\<close> on its third invocation ends the loop
  after three invocations, with the cell still \<^verbatim>\<open>True\<close> and no alarm armed.
\<close>

theorem loop_ends_on_SystemExit_counterexample:
  "fst (main_loop demo_cfg None
          [calm, calm, \<lparr>arrivals = [], run_does = Raise (SystemExit 0)\<rparr>, calm] daemon_host)
     = Raise (SystemExit 0)
   \<and> events (snd (main_loop demo_cfg None
          [calm, calm, \<lparr>arrivals = [], run_does = Raise (SystemExit 0)\<rparr>, calm] daemon_host))
     = [CallRun, CallRun, CallRun, FileRemove ''/run/d.pid'', Log INFO ''Exiting.'']
   \<and> running (snd (main_loop demo_cfg None
          [calm, calm, \<lparr>arrivals = [], run_does = Raise (SystemExit 0)\<rparr>, calm] daemon_host))
   \<and> alarm (snd (main_loop demo_cfg None
          [calm, calm, \<lparr>arrivals = [], run_does = Raise (SystemExit 0)\<rparr>, calm] daemon_host))
     = None"
  by (simp add: host_defs file_defs io_defs proc_defs initd_defs)

text \<open>
  C4, amended. An invocation of \<^verbatim>\<open>run()\<close> that ends with an exception below
  \<^verbatim>\<open>Exception\<close> is logged and the loop goes on with what follows; one that ends
  with another exception (\<^verbatim>\<open>SystemExit\<close>, as of the alarm handler,
  \<^verbatim>\<open>KeyboardInterrupt\<close>, \<^verbatim>\<open>GeneratorExit\<close>) ends the loop with that exception. A
  \<^verbatim>\<open>run()\<close> that raises an exception below \<^verbatim>\<open>Exception\<close> on its third invocation
  (the first two having returned or raised such exceptions, and nothing arriving
  before the fourth is entered) is followed by a fourth invocation. The loop
  returns only with the cell cleared. An exception below \<^verbatim>\<open>Exception\<close> leaves the
  loop only when it is what \<^verbatim>\<open>exit()\<close> raises in the termination handler while the
  loop is outside \<^verbatim>\<open>run()\<close>; the loop then ends at that invocation of \<^verbatim>\<open>exit()\<close>.
\<close>

theorem loop_survives_Exception:
  "(deliver exit (filter at_test (arrivals it)) w = (Ret (), w0) \<and> running w0
      \<and> call_run exit it w0 = (Raise e, w1) \<and> is_Exception e \<longrightarrow>
      run_loop exit (it # its) w = run_loop exit its (logger_exception e w1))
   \<and> (deliver exit4 (filter at_test (arrivals it4)) w4 = (Ret (), w5) \<and> running w5
      \<and> call_run exit4 it4 w5 = (Raise e4, w6) \<and> \<not> is_Exception e4 \<longrightarrow>
      run_loop exit4 (it4 # its4) w4 = (Raise e4, w6))
   \<and> (running v \<and> arrivals i1 = [] \<and> arrivals i2 = [] \<and> arrivals i3 = []
       \<and> filter at_test (arrivals i4) = []
       \<and> survives (run_does i1) \<and> survives (run_does i2)
       \<and> run_does i3 = Raise x \<and> is_Exception x \<longrightarrow>
      (\<exists>v3. run_loop exit' (i1 # i2 # i3 # i4 # rest) v = run_loop exit' (i4 # rest) v3
            \<and> running v3
            \<and> count_list (events v3) CallRun = count_list (events v) CallRun + 3
            \<and> last (events v3) = LogException x)
      \<and> count_list (events v) CallRun + 4
          \<le> count_list (events (snd (run_loop exit' (i1 # i2 # i3 # i4 # rest) v))) CallRun)
   \<and> (run_loop exit2 its2 w2 = (Ret (), w2') \<longrightarrow> \<not> running w2')
   \<and> (run_loop exit3 its3 w3 = (Raise y, w3') \<and> is_Exception y \<longrightarrow>
        exit3 = Some (Raise y) \<and> last (events w3') = CallExit)"
proof -
  have a: "run_loop exit (it # its) w = run_loop exit its (logger_exception e w1)"
    if "deliver exit (filter at_test (arrivals it)) w = (Ret (), w0)" "running w0"
       "call_run exit it w0 = (Raise e, w1)" "is_Exception e"
    using that by simp
  have a': "run_loop exit4 (it4 # its4) w4 = (Raise e4, w6)"
    if "deliver exit4 (filter at_test (arrivals it4)) w4 = (Ret (), w5)" "running w5"
       "call_run exit4 it4 w5 = (Raise e4, w6)" "\<not> is_Exception e4"
    using that by simp
  have b: "\<exists>v3. run_loop exit' (i1 # i2 # i3 # i4 # rest) v = run_loop exit' (i4 # rest) v3
            \<and> running v3
            \<and> count_list (events v3) CallRun = count_list (events v) CallRun + 3
            \<and> last (events v3) = LogException x"
    if h: "running v" "arrivals i1 = []" "arrivals i2 = []" "arrivals i3 = []"
       "survives (run_does i1)" "survives (run_does i2)" "run_does i3 = Raise x" "is_Exception x"
  proof -
    from step_survives [OF h(1) h(2) h(5), of exit' "i2 # i3 # i4 # rest"]
    obtain v1 where 1: "run_loop exit' (i1 # i2 # i3 # i4 # rest) v = run_loop exit' (i2 # i3 # i4 # rest) v1"
      "running v1" "count_list (events v1) CallRun = count_list (events v) CallRun + 1" by blast
    from step_survives [OF 1(2) h(3) h(6), of exit' "i3 # i4 # rest"]
    obtain v2 where 2: "run_loop exit' (i2 # i3 # i4 # rest) v1 = run_loop exit' (i3 # i4 # rest) v2"
      "running v2" "count_list (events v2) CallRun = count_list (events v1) CallRun + 1" by blast
    let ?v3 = "v2\<lparr>events := events v2 @ [CallRun, LogException x]\<rparr>"
    have 3: "run_loop exit' (i3 # i4 # rest) v2 = run_loop exit' (i4 # rest) ?v3"
      using step_raises [OF 2(2) h(4) h(7) h(8)] by simp
    have "running ?v3" using 2(2) by simp
    moreover have "count_list (events ?v3) CallRun = count_list (events v) CallRun + 3"
      using 1(3) 2(3) by (simp add: count_list_app)
    moreover have "last (events ?v3) = LogException x" by simp
    ultimately show ?thesis using 1(1) 2(1) 3 by (metis (no_types, lifting))
  qed
  have c: "count_list (events v) CallRun + 4
          \<le> count_list (events (snd (run_loop exit' (i1 # i2 # i3 # i4 # rest) v))) CallRun"
    if h: "running v" "arrivals i1 = []" "arrivals i2 = []" "arrivals i3 = []"
       "survives (run_does i1)" "survives (run_does i2)" "run_does i3 = Raise x" "is_Exception x"
      and q: "filter at_test (arrivals i4) = []"
  proof -
    from b [OF h] obtain v3 where
      v3: "run_loop exit' (i1 # i2 # i3 # i4 # rest) v = run_loop exit' (i4 # rest) v3"
      "running v3" "count_list (events v3) CallRun = count_list (events v) CallRun + 3" by blast
    from count_first_run [OF v3(2) q, of exit' rest] v3(1,3) show ?thesis by simp
  qed
  have d: "exit3 = Some (Raise y) \<and> last (events w3') = CallExit"
    if "run_loop exit3 its3 w3 = (Raise y, w3')" "is_Exception y"
    using that by (rule run_loop_Raise)
  from a a' b c d run_loop_Ret show ?thesis by blast
qed

text \<open>
  The daemon whose third \<^verbatim>\<open>run()\<close> raises an application error, the daemon whose
  \<^verbatim>\<open>run()\<close> raises \<^verbatim>\<open>SystemExit\<close>, the daemon that receives the termination signal,
  and the daemon whose \<^verbatim>\<open>exit()\<close> raises when the signal comes between two
  invocations of \<^verbatim>\<open>run()\<close>.
\<close>

theorem loop_survives_Exception_witness:
  "deliver None (filter at_test []) daemon_host = (Ret (), daemon_host)
   \<and> running daemon_host
   \<and> call_run None \<lparr>arrivals = [], run_does = Raise (AppError ''boom'')\<rparr> daemon_host =
       (Raise (AppError ''boom''), daemon_host\<lparr>events := [CallRun]\<rparr>)
   \<and> is_Exception (AppError ''boom'')
   \<and> run_loop None [\<lparr>arrivals = [], run_does = Raise (AppError ''boom'')\<rparr>] daemon_host
       = run_loop None [] (logger_exception (AppError ''boom'') (daemon_host\<lparr>events := [CallRun]\<rparr>))
   \<and> call_run None \<lparr>arrivals = [], run_does = Raise (SystemExit 0)\<rparr> daemon_host =
       (Raise (SystemExit 0), daemon_host\<lparr>events := [CallRun]\<rparr>)
   \<and> \<not> is_Exception (SystemExit 0)
   \<and> run_loop None [\<lparr>arrivals = [], run_does = Raise (SystemExit 0)\<rparr>, calm] daemon_host
       = (Raise (SystemExit 0), daemon_host\<lparr>events := [CallRun]\<rparr>)
   \<and> run_loop None [calm, calm, \<lparr>arrivals = [], run_does = Raise (AppError ''boom'')\<rparr>, calm]
        daemon_host =
       (Inl Pending,
        daemon_host\<lparr>events := [CallRun, CallRun, CallRun, LogException (AppError ''boom''), CallRun]\<rparr>)
   \<and> (4::nat) \<le> count_list (events (snd (run_loop None
        [calm, calm, \<lparr>arrivals = [], run_does = Raise (AppError ''boom'')\<rparr>, calm] daemon_host))) CallRun
   \<and> run_loop None [\<lparr>arrivals = [Signal SIGTERM], run_does = Ret ()\<rparr>] daemon_host =
       (Ret (), snd (run_loop None [\<lparr>arrivals = [Signal SIGTERM], run_does = Ret ()\<rparr>] daemon_host))
   \<and> \<not> running (snd (run_loop None [\<lparr>arrivals = [Signal SIGTERM], run_does = Ret ()\<rparr>] daemon_host))
   \<and> run_loop (Some (Raise (AppError ''boom'')))
        [\<lparr>arrivals = [AtTest (Sent SIGTERM)], run_does = Ret ()\<rparr>] daemon_host
       = (Raise (AppError ''boom''),
          daemon_host\<lparr>events := [Log DEBUG ''Calling exit handler'', CallExit]\<rparr>)
   \<and> last (events (daemon_host\<lparr>events := [Log DEBUG ''Calling exit handler'', CallExit]\<rparr>)) = CallExit"
proof -
  let ?boom = "\<lparr>arrivals = [], run_does = Raise (AppError ''boom'')\<rparr>"
  let ?quit = "\<lparr>arrivals = [], run_does = Raise (SystemExit 0)\<rparr>"
  let ?sigterm = "[\<lparr>arrivals = [Signal SIGTERM], run_does = Ret ()\<rparr>]"
  let ?between = "[\<lparr>arrivals = [AtTest (Sent SIGTERM)], run_does = Ret ()\<rparr>]"
  have a: "running daemon_host" "events daemon_host = []"
    "call_run None ?boom daemon_host = (Raise (AppError ''boom''), daemon_host\<lparr>events := [CallRun]\<rparr>)"
    "call_run None ?quit daemon_host = (Raise (SystemExit 0), daemon_host\<lparr>events := [CallRun]\<rparr>)"
    "arrivals calm = []" "run_does calm = Ret ()"
    by (simp_all add: host_defs io_defs initd_defs)
  have b: "run_loop None [calm, calm, ?boom, calm] daemon_host =
       (Inl Pending,
        daemon_host\<lparr>events := [CallRun, CallRun, CallRun, LogException (AppError ''boom''), CallRun]\<rparr>)"
    by (simp add: host_defs io_defs initd_defs)
  obtain u where c: "run_loop None ?sigterm daemon_host = (Ret (), u)"
    by (simp add: host_defs io_defs proc_defs initd_defs)
  have d: "run_loop (Some (Raise (AppError ''boom''))) ?between daemon_host
       = (Raise (AppError ''boom''),
          daemon_host\<lparr>events := [Log DEBUG ''Calling exit handler'', CallExit]\<rparr>)"
    by (simp add: host_defs io_defs proc_defs initd_defs)
  from loop_survives_Exception [where exit = None and it = ?boom and w = daemon_host
      and ?w0.0 = daemon_host and e = "AppError ''boom''"
      and ?w1.0 = "daemon_host\<lparr>events := [CallRun]\<rparr>" and its = "[]"
      and ?exit4.0 = None and ?it4.0 = ?quit and ?w4.0 = daemon_host and ?w5.0 = daemon_host
      and ?e4.0 = "SystemExit 0" and ?w6.0 = "daemon_host\<lparr>events := [CallRun]\<rparr>"
      and ?its4.0 = "[calm]"
      and v = daemon_host and ?i1.0 = calm and ?i2.0 = calm and ?i3.0 = ?boom and ?i4.0 = calm
      and x = "AppError ''boom''" and exit' = None and rest = "[]"
      and ?exit2.0 = None and ?its2.0 = ?sigterm and ?w2.0 = daemon_host and w2' = u
      and ?exit3.0 = "Some (Raise (AppError ''boom''))" and ?its3.0 = ?between
      and ?w3.0 = daemon_host and y = "AppError ''boom''"
      and w3' = "daemon_host\<lparr>events := [Log DEBUG ''Calling exit handler'', CallExit]\<rparr>"]
    a b c d
  show ?thesis by simp
qed

subsection \<open>\<^verbatim>\<open>restart\<close>\<close>

text \<open>
  C5. \<^verbatim>\<open>restart\<close> is the composition: if the pid file exists perform \<^verbatim>\<open>stop\<close>, then
  in all cases perform \<^verbatim>\<open>start\<close>. Both end the same way and in the same state of
  the process and the system (files, identities, handlers, alarm, cell). Their
  records of events agree up to the line \<^verbatim>\<open>Starting.\<close>, which \<^verbatim>\<open>restart\<close> prints
  between the two.
\<close>

theorem restart_is_stop_then_start:
  "fst (restart cfg exit ticks its w) = fst (stop_then_start cfg exit ticks its w)
   \<and> fresh (snd (restart cfg exit ticks its w)) = fresh (snd (stop_then_start cfg exit ticks its w))
   \<and> filter (\<lambda>e. e \<noteq> Stdout (''Starting.'' @ [CHR 0x0A])) (events (snd (restart cfg exit ticks its w)))
       = filter (\<lambda>e. e \<noteq> Stdout (''Starting.'' @ [CHR 0x0A]))
           (events (snd (stop_then_start cfg exit ticks its w)))
   \<and> length (events (snd (restart cfg exit ticks its w)))
       \<le> length (events (snd (stop_then_start cfg exit ticks its w))) + 1"
proof (cases "if os_path_exists w (pid_file cfg) then stop cfg ticks w else (Ret (), w)")
  case (Pair r w1)
  show ?thesis
  proof (cases r)
    case (Inl a)
    with Pair show ?thesis
      by (simp add: restart_def stop_then_start_def then_do_def)
  next
    case (Inr u)
    let ?e = "Stdout (''Starting.'' @ [CHR 0x0A])"
    have a: "restart cfg exit ticks its w = lift (events w1 @ [?e]) (start cfg exit its (fresh w1))"
      using Pair Inr start_shift [of cfg exit its "events w1 @ [?e]" "fresh w1"]
      by (simp add: restart_def then_do_def stdout_write_def emit_as_shift)
    have b: "stop_then_start cfg exit ticks its w = lift (events w1) (start cfg exit its (fresh w1))"
      using Pair Inr start_events [of cfg exit its w1]
      by (simp add: stop_then_start_def then_do_def)
    show ?thesis
      by (simp add: a b lift_def)
  qed
qed

text \<open>
  The host whose pid file names the live process 4242; the file is removed while
  \<^verbatim>\<open>stop\<close> is at work: both stop it and leave a new daemon in its loop.
\<close>

theorem restart_is_stop_then_start_witness:
  "restart demo_cfg None [[EnvRemove ''/run/d.pid'']] [calm] live_host =
     (Inl Pending, snd (restart demo_cfg None [[EnvRemove ''/run/d.pid'']] [calm] live_host))
   \<and> fst (stop_then_start demo_cfg None [[EnvRemove ''/run/d.pid'']] [calm] live_host) = Inl Pending
   \<and> fs (snd (restart demo_cfg None [[EnvRemove ''/run/d.pid'']] [calm] live_host)) ''/run/d.pid''
       = Some (Regular ''102'')
   \<and> fs (snd (stop_then_start demo_cfg None [[EnvRemove ''/run/d.pid'']] [calm] live_host)) ''/run/d.pid''
       = Some (Regular ''102'')
   \<and> fresh (snd (restart demo_cfg None [[EnvRemove ''/run/d.pid'']] [calm] live_host))
       = fresh (snd (stop_then_start demo_cfg None [[EnvRemove ''/run/d.pid'']] [calm] live_host))"
proof -
  have a: "fst (stop_then_start demo_cfg None [[EnvRemove ''/run/d.pid'']] [calm] live_host) = Inl Pending"
    by (simp add: host_defs file_defs io_defs proc_defs daemon_defs initd_defs stop_then_start_def
        text_defs)
  have b: "fs (snd (stop_then_start demo_cfg None [[EnvRemove ''/run/d.pid'']] [calm] live_host))
             ''/run/d.pid'' = Some (Regular (str_int 102))"
    by (simp add: host_defs file_defs io_defs proc_defs daemon_defs initd_defs stop_then_start_def
        py_int_def py_strip_def py_space_def py_unsigned_def is_digit_def digit_val_def)
  have c: "str_int 102 = ''102''" by code_simp
  have d: "fs (snd (restart demo_cfg None [[EnvRemove ''/run/d.pid'']] [calm] live_host))
            = fs (fresh (snd (restart demo_cfg None [[EnvRemove ''/run/d.pid'']] [calm] live_host)))"
    by (simp add: fresh_def)
  from restart_is_stop_then_start [of demo_cfg None "[[EnvRemove ''/run/d.pid'']]" "[calm]" live_host]
    a b c d
  show ?thesis by (simp add: fresh_def prod_eq_iff)
qed

subsection \<open>The pid file of a successful \<^verbatim>\<open>start\<close>\<close>

text \<open>
  C3. Whenever \<^verbatim>\<open>start\<close> gets as far as its loop, \<^verbatim>\<open>become_daemon\<close> has returned
  before the pid file is written: no write stands among the events up to that
  return, and the write is the next event. The text written is the decimal pid of
  the process that \<^verbatim>\<open>become_daemon\<close> returns in, which reads back as that pid. On
  POSIX this is the child of the second fork, and the text differs from that of
  the caller's pid whenever the system gave the child another pid; off POSIX
  nothing forks.
\<close>

theorem pid_file_after_detach:
  assumes "start_prologue cfg w = (Ret False, w')"
  shows "\<exists>w1 w2 es.
           change_uid cfg w = (Ret (), w1)
         \<and> become_daemon (workdir cfg) (stdout cfg) (stderr cfg) (umask cfg) w1 = (Ret (), w2)
         \<and> events w2 = events w @ es \<and> (\<forall>p t. FileWrite p t \<notin> set es)
         \<and> events w' = events w2 @
              [FileWrite (pid_file cfg) (str_int (pid w2)), SetRunning True,
               SignalInstall SIGTERM Cb_term_handler, Log INFO ''Starting'']
         \<and> fs w' (pid_file cfg) = Some (Regular (str_int (pid w2)))
         \<and> py_int (str_int (pid w2)) = Some (pid w2)
         \<and> pid w' = pid w2
         \<and> (posix w \<longrightarrow>
              (\<exists>c1 c2 rest. forks w = Child c1 # Child c2 # rest \<and> pid w2 = c2
                 \<and> (c2 \<noteq> pid w \<longrightarrow> str_int (pid w2) \<noteq> str_int (pid w))))
         \<and> (\<not> posix w \<longrightarrow> pid w2 = pid w)"
proof -
  from assms obtain w1 w2 where
        b: "change_uid cfg w = (Ret (), w1)"
    and c: "become_daemon (workdir cfg) (stdout cfg) (stderr cfg) (umask cfg) w1 = (Ret (), w2)"
    and e: "w' = install_handler (w2\<lparr>fs := (fs w2)(pid_file cfg \<mapsto> Regular (str_int (pid w2))),
         events := events w2 @ [FileWrite (pid_file cfg) (str_int (pid w2))]\<rparr>)"
    by (rule start_prologue_False)
  have "grows w w1" using change_uid_grows [of w cfg] b by simp
  moreover have "grows w1 w2"
    using become_daemon_grows [of w1 "workdir cfg" "stdout cfg" "stderr cfg" "umask cfg"] c by simp
  ultimately have "grows w w2" by (rule grows_trans)
  then obtain es where es: "events w2 = events w @ es" "list_all quiet_event es"
    unfolding grows_def by blast
  have nw: "\<forall>p t. FileWrite p t \<notin> set es" using es(2) quiet_no_write by blast
  have p1: "pid w1 = pid w" "forks w1 = forks w" "posix w1 = posix w"
    using change_uid_proc [OF b] by simp_all
  have ev: "events w' = events w2 @
              [FileWrite (pid_file cfg) (str_int (pid w2)), SetRunning True,
               SignalInstall SIGTERM Cb_term_handler, Log INFO ''Starting'']"
    and f: "fs w' (pid_file cfg) = Some (Regular (str_int (pid w2)))"
    and p: "pid w' = pid w2"
    by (simp_all add: e install_handler_def logger_def signal_signal_def emit_def)
  have inj: "c2 \<noteq> pid w \<longrightarrow> str_int c2 \<noteq> str_int (pid w)" for c2
    using str_int_inj by blast
  have px: "posix w \<longrightarrow>
              (\<exists>c1 c2 rest. forks w = Child c1 # Child c2 # rest \<and> pid w2 = c2
                 \<and> (c2 \<noteq> pid w \<longrightarrow> str_int (pid w2) \<noteq> str_int (pid w)))"
    using become_daemon_pid [OF c] p1 inj by auto
  have np: "\<not> posix w \<longrightarrow> pid w2 = pid w"
    using become_daemon_pid [OF c] p1 by auto
  from b c es(1) nw ev f p px np py_int_str_int [of "pid w2"] show ?thesis by blast
qed

text \<open>The host without a pid file: process 100 calls, process 102 writes \<^verbatim>\<open>102\<close>.\<close>

theorem pid_file_after_detach_witness:
  "fst (start_prologue demo_cfg fresh_host) = Ret False
   \<and> pid fresh_host = 100
   \<and> pid (snd (start_prologue demo_cfg fresh_host)) = 102
   \<and> fs (snd (start_prologue demo_cfg fresh_host)) ''/run/d.pid'' = Some (Regular ''102'')
   \<and> py_int ''102'' = Some 102
   \<and> events (snd (start_prologue demo_cfg fresh_host)) =
       [Fork 101, ParentSysExit 0, Setsid, Chdir ''/'', Umask 18, Fork 102, ParentOsExit 0,
        OpenFile ''/dev/null'' ''r'', OpenFile ''/dev/null'' ''a+'', OpenFile ''/dev/null'' ''a+'',
        Redirect 0 (Some ''/dev/null''), Redirect 1 (Some ''/dev/null''),
        Redirect 2 (Some ''/dev/null''), FileWrite ''/run/d.pid'' ''102'', SetRunning True,
        SignalInstall SIGTERM Cb_term_handler, Log INFO ''Starting'']"
proof -
  obtain w' where a: "start_prologue demo_cfg fresh_host = (Ret False, w')"
    by (simp add: host_defs file_defs io_defs proc_defs daemon_defs initd_defs)
  have b: "change_uid demo_cfg fresh_host = (Ret (), fresh_host)"
    by (simp add: host_defs change_uid_def)
  obtain w2 where c: "become_daemon (workdir demo_cfg) (stdout demo_cfg) (stderr demo_cfg)
                        (umask demo_cfg) fresh_host = (Ret (), w2)"
    and d: "events w2 = [Fork 101, ParentSysExit 0, Setsid, Chdir ''/'', Umask 18, Fork 102, ParentOsExit 0,
        OpenFile ''/dev/null'' ''r'', OpenFile ''/dev/null'' ''a+'', OpenFile ''/dev/null'' ''a+'',
        Redirect 0 (Some ''/dev/null''), Redirect 1 (Some ''/dev/null''),
        Redirect 2 (Some ''/dev/null'')]"
    by (simp add: host_defs file_defs io_defs proc_defs daemon_defs)
  have e: "pid fresh_host = 100" "posix fresh_host" "forks fresh_host = [Child 101, Child 102]"
    "pid_file demo_cfg = ''/run/d.pid''" "events fresh_host = []"
    by (simp_all add: host_defs)
  have f: "str_int 102 = ''102''" by code_simp
  from pid_file_after_detach [OF a] a b c d e f show ?thesis by auto
qed

subsection \<open>How often \<^verbatim>\<open>exit()\<close> is invoked\<close>

text \<open>
  C9 as the specification has it: \<^verbatim>\<open>exit()\<close> is invoked at most once, even when
  several termination signals are delivered. The handler has no memory of having
  run: two termination signals during one \<^verbatim>\<open>run()\<close> invoke \<^verbatim>\<open>exit()\<close> twice.
\<close>

theorem exit_called_twice_counterexample:
  "count_list (events (snd (start demo_cfg (Some (Ret ()))
      [\<lparr>arrivals = [Signal SIGTERM, Signal SIGTERM], run_does = Ret ()\<rparr>] fresh_host))) CallExit = 2"
  by (simp add: host_defs file_defs io_defs proc_defs daemon_defs initd_defs)

text \<open>
  C9, amended. In any execution of \<^verbatim>\<open>start\<close>, \<^verbatim>\<open>exit()\<close> is invoked at most once for
  each termination signal delivered (the alarm signal not being bound to the
  termination handler beforehand), so at most once when at most one is delivered;
  and the first store of \<^verbatim>\<open>False\<close> to the cell, before which the loop cannot
  observe a stop request, has an invocation of \<^verbatim>\<open>exit()\<close> before it.
\<close>

theorem exit_once_per_signal:
  "(handlers w SIGALRM \<noteq> Cb_term_handler \<longrightarrow>
      count_list (added w (snd (start cfg exit its w))) CallExit \<le> sigterms its)
   \<and> exit_first False (added w (snd (start cfg (Some cb) its w)))"
proof -
  have a: "count_list (added w (snd (start cfg exit its w))) CallExit \<le> sigterms its"
    if h: "handlers w SIGALRM \<noteq> Cb_term_handler"
  proof (cases rule: start_fresh_cases [of cfg w exit its])
    case (1 a v)
    from prologue_all [OF 1(1)] have "count_list (events v) CallExit = 0"
      by (auto simp: fresh_def)
    with 1(2) show ?thesis by (simp add: added_start)
  next
    case (2 v)
    from prologue_all [OF 2(1)] have "count_list (events v) CallExit = 0"
      by (auto simp: fresh_def)
    with 2(2) show ?thesis by (simp add: added_start)
  next
    case (3 v)
    from prologue_all [OF 3(1)] have z: "count_list (events v) CallExit = 0"
      and t: "handlers v SIGALRM \<noteq> Cb_term_handler"
      using h by (auto simp: fresh_def)
    from main_loop_count [OF t, of cfg exit its] z 3(2) show ?thesis by (simp add: added_start)
  qed
  have b: "exit_first False (added w (snd (start cfg (Some cb) its w)))"
  proof (cases rule: start_fresh_cases [of cfg w "Some cb" its])
    case (1 a v)
    from prologue_all [OF 1(1)] have "exit_first False (events v)"
      by (auto simp: fresh_def exit_first_none)
    with 1(2) show ?thesis by (simp add: added_start)
  next
    case (2 v)
    from prologue_all [OF 2(1)] have "exit_first False (events v)"
      by (auto simp: fresh_def exit_first_none)
    with 2(2) show ?thesis by (simp add: added_start)
  next
    case (3 v)
    from prologue_all [OF 3(1)] have "exit_first False (events v)"
      by (auto simp: fresh_def exit_first_none)
    from main_loop_exit_first [OF this, of cfg cb its] 3(2) show ?thesis by (simp add: added_start)
  qed
  from a b show ?thesis by blast
qed

text \<open>A daemon started on the host without a pid file receives one termination signal.\<close>

theorem exit_once_per_signal_witness:
  "handlers fresh_host SIGALRM \<noteq> Cb_term_handler
   \<and> sigterms [calm, \<lparr>arrivals = [Signal SIGTERM], run_does = Ret ()\<rparr>] = 1
   \<and> count_list (added fresh_host (snd (start demo_cfg (Some (Ret ()))
        [calm, \<lparr>arrivals = [Signal SIGTERM], run_does = Ret ()\<rparr>] fresh_host))) CallExit \<le> 1
   \<and> exit_first False (added fresh_host (snd (start demo_cfg (Some (Ret ()))
        [calm, \<lparr>arrivals = [Signal SIGTERM], run_does = Ret ()\<rparr>] fresh_host)))
   \<and> SetRunning False \<in> set (added fresh_host (snd (start demo_cfg (Some (Ret ()))
        [calm, \<lparr>arrivals = [Signal SIGTERM], run_does = Ret ()\<rparr>] fresh_host)))"
proof -
  let ?its = "[calm, \<lparr>arrivals = [Signal SIGTERM], run_does = Ret ()\<rparr>]"
  have a: "handlers fresh_host SIGALRM \<noteq> Cb_term_handler" by (simp add: host_defs)
  have b: "sigterms ?its = 1" by (simp add: sigterms_def host_defs)
  have c: "SetRunning False \<in> set (added fresh_host (snd (start demo_cfg (Some (Ret ())) ?its fresh_host)))"
    by (simp add: added_def host_defs file_defs io_defs proc_defs daemon_defs initd_defs)
  from exit_once_per_signal [of fresh_host demo_cfg "Some (Ret ())" ?its "Ret ()"] a b c
  show ?thesis by simp
qed

end
